theory Spec2Isabelle
  imports Main "HOL-Library.Word"
begin

section \<open>Shared data model\<close>

type_synonym byte = "8 word"

text \<open>Go's \<open>error\<close> values as far as the gateway inspects them: the two context
  sentinels, the gateway's own sentinels \<open>middleware.ErrNotFound\<close> and
  \<open>client.ErrCancelWatch\<close> (compared by identity, hence constructors of their own), an
  opaque error with its \<open>Error()\<close> text, and an error of some wrapping type that carries
  its own text and an \<open>Unwrap()\<close> target.\<close>

datatype error =
    Canceled
  | DeadlineExceeded
  | ErrNotFound
  | ErrCancelWatch
  | Plain string
  | Wrap string error

text \<open>\<open>errors.Is(err, target)\<close> for a sentinel target: walk the \<open>Unwrap\<close> chain.\<close>

fun errors_Is :: "error \<Rightarrow> error \<Rightarrow> bool" where
  "errors_Is (Wrap msg inner) target = (Wrap msg inner = target \<or> errors_Is inner target)"
| "errors_Is e target = (e = target)"

text \<open>\<open>err.Error()\<close>; the texts of the context sentinels are those of package context.\<close>

fun Error :: "error \<Rightarrow> string" where
  "Error Canceled = ''context canceled''"
| "Error DeadlineExceeded = ''context deadline exceeded''"
| "Error ErrNotFound = ''middleware has not been registered''"
| "Error ErrCancelWatch = ''cancel watch''"
| "Error (Plain msg) = msg"
| "Error (Wrap msg inner) = msg"

text \<open>\<open>config.Protocol\<close>, with its \<open>String()\<close> method.\<close>

datatype Protocol = HTTP | GRPC

fun Protocol_String :: "Protocol \<Rightarrow> string" where
  "Protocol_String HTTP = ''HTTP''"
| "Protocol_String GRPC = ''GRPC''"

text \<open>\<open>http.Header\<close>: canonical key to list of values. Keys are written in canonical form
  throughout (\<open>Content-Type\<close>, \<open>Content-Length\<close>, \<open>Grpc-Status\<close>, ...).\<close>

type_synonym Header = "string \<rightharpoonup> string list"

definition Header_Get :: "Header \<Rightarrow> string \<Rightarrow> string" where
  "Header_Get h k = (case h k of None \<Rightarrow> [] | Some [] \<Rightarrow> [] | Some (v # vs) \<Rightarrow> v)"

definition Header_Set :: "Header \<Rightarrow> string \<Rightarrow> string \<Rightarrow> Header" where
  "Header_Set h k v = h(k \<mapsto> [v])"

definition Header_Del :: "Header \<Rightarrow> string \<Rightarrow> Header" where
  "Header_Del h k = h(k := None)"

section \<open>package strings\<close>

definition strings_HasPrefix :: "string \<Rightarrow> string \<Rightarrow> bool" where
  "strings_HasPrefix s p = (length p \<le> length s \<and> take (length p) s = p)"

text \<open>\<open>strings.TrimLeft(s, cutset)\<close> removes every leading character of \<open>s\<close> that occurs
  in \<open>cutset\<close>; the cutset is a set of characters, not a prefix.\<close>

definition strings_TrimLeft :: "string \<Rightarrow> string \<Rightarrow> string" where
  "strings_TrimLeft s cutset = dropWhile (\<lambda>c. c \<in> set cutset) s"

section \<open>middleware/transcoder: request direction\<close>

text \<open>The part of \<open>http.Request\<close> the transcoder touches. \<open>Body\<close> is what
  \<open>io.ReadAll(req.Body)\<close> yields: the bytes, or the read error.\<close>

record Request =
  req_Header :: Header
  req_ContentLength :: int
  req_Body :: "error + byte list"

text \<open>\<open>binary.BigEndian.PutUint32(b, v)\<close> writes these four bytes to \<open>b[0..3]\<close>.\<close>

definition PutUint32 :: "32 word \<Rightarrow> byte list" where
  "PutUint32 v = [ucast (drop_bit 24 v), ucast (drop_bit 16 v), ucast (drop_bit 8 v), ucast v]"

text \<open>\<open>copy(dst[off:], src)\<close> on a slice: overwrites as many elements as fit.\<close>

definition copy_at :: "'a list \<Rightarrow> nat \<Rightarrow> 'a list \<Rightarrow> 'a list" where
  "copy_at dst off src =
     take off dst @ take (length dst - off) src @ drop (off + length src) dst"

text \<open>The frame built from the captured body \<open>b\<close>:
  \<open>bb := make([]byte, len(b)+5); PutUint32(bb[1:], uint32(len(b))); copy(bb[5:], b)\<close>.\<close>

definition frame :: "byte list \<Rightarrow> byte list" where
  "frame b =
     (let bb = replicate (length b + 5) (0 :: byte);
          bb = copy_at bb 1 (PutUint32 (of_nat (length b)));
          bb = copy_at bb 5 b
      in bb)"

text \<open>The transcoder's round tripper up to the call of \<open>next.RoundTrip\<close>: the result is
  the request handed to \<open>next\<close>, or the error returned before that call.\<close>

definition transcoder_request :: "Protocol \<Rightarrow> Request \<Rightarrow> error + Request" where
  "transcoder_request endpoint_Protocol req =
     (let contentType = Header_Get (req_Header req) ''Content-Type'' in
      if endpoint_Protocol \<noteq> GRPC \<or> strings_HasPrefix contentType ''application/grpc''
      then Inr req
      else (case req_Body req of
              Inl err \<Rightarrow> Inl err
            | Inr b \<Rightarrow>
                let bb = frame b;
                    h = Header_Set (req_Header req) ''Content-Type''
                          (''application/grpc+'' @ strings_TrimLeft contentType ''application/'');
                    h = Header_Del h ''Content-Length''
                in Inr (req\<lparr>req_Header := h, req_ContentLength := int (length bb), req_Body := Inr bb\<rparr>)))"

section \<open>client: nodes\<close>

text \<open>Which of the process-wide HTTP clients a node dials with.\<close>

datatype ClientRef =
    globalClient
  | globalH2CClient
  | globalHTTPSClient
  | TLSClientStore_GetClient string

record node =
  address :: string
  name :: string
  weight :: "int option"
  version :: string
  metadata :: "string \<rightharpoonup> string"
  client :: ClientRef
  protocol :: Protocol
  tls :: bool

record NodeOptions =
  TLS :: bool
  TLSConfigName :: string

type_synonym NewNodeOption = "NodeOptions \<Rightarrow> NodeOptions"

definition WithTLS :: "bool \<Rightarrow> NewNodeOption" where
  "WithTLS b = (\<lambda>opt. opt\<lparr>TLS := b\<rparr>)"

definition WithTLSConfigName :: "string \<Rightarrow> NewNodeOption" where
  "WithTLSConfigName s = (\<lambda>opt. opt\<lparr>TLSConfigName := s\<rparr>)"

definition newNode ::
  "string \<Rightarrow> Protocol \<Rightarrow> int option \<Rightarrow> (string \<rightharpoonup> string) \<Rightarrow> string \<Rightarrow> string
     \<Rightarrow> NewNodeOption list \<Rightarrow> node" where
  "newNode addr proto w md ver nm opts =
     (let n = \<lparr>address = addr, name = nm, weight = w, version = ver, metadata = md,
                client = globalClient, protocol = proto, tls = False\<rparr>;
          n = (if proto = GRPC then n\<lparr>client := globalH2CClient\<rparr> else n);
          opt = fold (\<lambda>o' acc. o' acc) opts \<lparr>TLS = False, TLSConfigName = []\<rparr>
      in if TLS opt
         then (let n = n\<lparr>tls := True, client := globalHTTPSClient\<rparr>
               in if TLSConfigName opt \<noteq> []
                  then n\<lparr>client := TLSClientStore_GetClient (TLSConfigName opt)\<rparr>
                  else n)
         else n)"

section \<open>middleware: the retry-exclusion filter of NewRequestOptions\<close>

text \<open>The filter closure reads \<open>o.Backends\<close> when it is called. It filters in place:
  \<open>newNodes := nodes[:0]\<close> shares the backing array of \<open>nodes\<close>, so every
  \<open>append(newNodes, node)\<close> writes into that array at the write index \<open>w\<close> (the
  length of \<open>newNodes\<close>), while the \<open>range\<close> loop reads element \<open>i\<close> of the same
  array. The loop below keeps the array, the read index and the write index explicit. The
  write index never exceeds the read index, so \<open>append\<close> never has to reallocate.\<close>

definition selected_of :: "string list \<Rightarrow> (string \<rightharpoonup> unit)" where
  "selected_of Backends = fold (\<lambda>b m. m(b \<mapsto> ())) Backends Map.empty"

function filter_loop ::
  "(string \<rightharpoonup> unit) \<Rightarrow> node list \<Rightarrow> nat \<Rightarrow> nat \<Rightarrow> node list \<times> nat" where
  "filter_loop selected arr i w =
     (if i < length arr
      then (let nd = arr ! i in
            if selected (address nd) = None
            then filter_loop selected (arr[w := nd]) (i + 1) (w + 1)
            else filter_loop selected arr (i + 1) w)
      else (arr, w))"
  by pat_completeness auto
termination
  by (relation "measure (\<lambda>(selected, arr, i, w). length arr - i)") auto

definition retry_filter :: "string list \<Rightarrow> node list \<Rightarrow> node list" where
  "retry_filter Backends nodes =
     (if length Backends = 0 then nodes
      else (let selected = selected_of Backends;
                (arr, w) = filter_loop selected nodes 0 0;
                newNodes = take w arr
            in if length newNodes = 0 then arr else newNodes))"

section \<open>client: target parsing and the node applier\<close>

text \<open>\<open>strconv.ParseBool\<close>: the accepted spellings, an error otherwise.\<close>

definition ParseBool :: "string \<Rightarrow> error + bool" where
  "ParseBool s =
     (if s \<in> set [''1'', ''t'', ''T'', ''TRUE'', ''true'', ''True''] then Inr True
      else if s \<in> set [''0'', ''f'', ''F'', ''FALSE'', ''false'', ''False''] then Inr False
      else Inl (Plain ''strconv.ParseBool: invalid syntax''))"

text \<open>What \<open>parseEndpoint\<close> reads of a parsed \<open>url.URL\<close>: the scheme, the host and the
  value of \<open>u.Query().Get("isSecure")\<close>. The parser \<open>url.Parse\<close> itself is a parameter
  \<open>url_Parse\<close> of the functions below.\<close>

record URL =
  Scheme :: string
  Host :: string
  Query_isSecure :: string

definition IsSecure :: "URL \<Rightarrow> bool" where
  "IsSecure u = (case ParseBool (Query_isSecure u) of Inl err \<Rightarrow> False | Inr ok \<Rightarrow> ok)"

fun parseEndpoint ::
  "(string \<Rightarrow> error + URL) \<Rightarrow> string list \<Rightarrow> string \<Rightarrow> bool \<Rightarrow> error + string" where
  "parseEndpoint url_Parse [] scheme isSecure = Inr []"
| "parseEndpoint url_Parse (e # endpoints) scheme isSecure =
     (case url_Parse e of
        Inl err \<Rightarrow> Inl err
      | Inr u \<Rightarrow>
          if Scheme u = scheme \<and> IsSecure u = isSecure then Inr (Host u)
          else parseEndpoint url_Parse endpoints scheme isSecure)"

record ServiceInstance =
  ID :: string
  Name :: string
  Version :: string
  Metadata :: "string \<rightharpoonup> string"
  Endpoints :: "string list"

definition defaultWeight :: int where
  "defaultWeight = 10"

text \<open>\<open>nodeWeight\<close>; \<open>ParseInt\<close> stands for \<open>strconv.ParseInt(w, 10, 64)\<close> with its
  error dropped (the value is 0 or the saturated bound when parsing fails).\<close>

definition nodeWeight :: "(string \<Rightarrow> int) \<Rightarrow> ServiceInstance \<Rightarrow> int option" where
  "nodeWeight ParseInt n =
     (case Metadata n ''weight'' of
        Some w \<Rightarrow> (let val = ParseInt w in if val \<le> 0 then Some defaultWeight else Some val)
      | None \<Rightarrow> Some defaultWeight)"

text \<open>\<open>strings.ToLower\<close> on ASCII text: only the letters \<open>A\<close> to \<open>Z\<close> change.\<close>

definition strings_ToLower :: "string \<Rightarrow> string" where
  "strings_ToLower s =
     map (\<lambda>c. case map_of (zip ''ABCDEFGHIJKLMNOPQRSTUVWXYZ'' ''abcdefghijklmnopqrstuvwxyz'') c of
                Some l \<Rightarrow> l
              | None \<Rightarrow> c) s"

text \<open>The node applier of one endpoint. \<open>picker\<close> is the node set last handed to
  \<open>picker.Apply\<close>, \<open>Apply_calls\<close> counts those calls.\<close>

record nodeApplier =
  canceled :: bool
  endpoint_Protocol :: Protocol
  picker :: "node list"
  Apply_calls :: nat

definition picker_Apply :: "node list \<Rightarrow> nodeApplier \<Rightarrow> nodeApplier" where
  "picker_Apply nodes na = na\<lparr>picker := nodes, Apply_calls := Apply_calls na + 1\<rparr>"

text \<open>The loop of \<open>Callback\<close> over the service instances, appending to \<open>nodes\<close>.\<close>

fun Callback_nodes ::
  "(string \<Rightarrow> error + URL) \<Rightarrow> (string \<Rightarrow> int) \<Rightarrow> Protocol \<Rightarrow> ServiceInstance list \<Rightarrow> node list" where
  "Callback_nodes url_Parse ParseInt proto [] = []"
| "Callback_nodes url_Parse ParseInt proto (ser # services) =
     (case parseEndpoint url_Parse (Endpoints ser) (strings_ToLower (Protocol_String proto)) False of
        Inl err \<Rightarrow> Callback_nodes url_Parse ParseInt proto services
      | Inr addr \<Rightarrow>
          if addr = [] then Callback_nodes url_Parse ParseInt proto services
          else newNode addr proto (nodeWeight ParseInt ser) (Metadata ser) (Version ser) (Name ser)
                 [WithTLS False]
               # Callback_nodes url_Parse ParseInt proto services)"

definition Callback ::
  "(string \<Rightarrow> error + URL) \<Rightarrow> (string \<Rightarrow> int) \<Rightarrow> ServiceInstance list \<Rightarrow> nodeApplier
     \<Rightarrow> error option \<times> nodeApplier" where
  "Callback url_Parse ParseInt services na =
     (if canceled na then (Some ErrCancelWatch, na)
      else if length services = 0 then (None, na)
      else (None, picker_Apply (Callback_nodes url_Parse ParseInt (endpoint_Protocol na) services) na))"

section \<open>client: the service watcher's update loop\<close>

text \<open>The watcher table for the endpoints being watched: the cached instance list per
  endpoint key and the subscribed appliers per endpoint key, each under its id.\<close>

record serviceWatcher =
  selectedInstances :: "string \<rightharpoonup> ServiceInstance list"
  appliers :: "string \<rightharpoonup> (string \<times> nodeApplier) list"

definition setSelectedCache :: "string \<Rightarrow> ServiceInstance list \<Rightarrow> serviceWatcher \<Rightarrow> serviceWatcher" where
  "setSelectedCache endpoint instances s =
     s\<lparr>selectedInstances := (selectedInstances s)(endpoint \<mapsto> instances)\<rparr>"

text \<open>\<open>doCallback\<close>: every applier of the endpoint gets the list; errors are only logged.\<close>

definition doCallback ::
  "(string \<Rightarrow> error + URL) \<Rightarrow> (string \<Rightarrow> int) \<Rightarrow> string \<Rightarrow> ServiceInstance list
     \<Rightarrow> serviceWatcher \<Rightarrow> serviceWatcher" where
  "doCallback url_Parse ParseInt endpoint services s =
     (case appliers s endpoint of
        None \<Rightarrow> s
      | Some as \<Rightarrow>
          s\<lparr>appliers := (appliers s)(endpoint \<mapsto>
               map (\<lambda>(id, a). (id, snd (Callback url_Parse ParseInt services a))) as)\<rparr>)"

datatype loop_control = Continue | Continue_after_sleep | Return

text \<open>One iteration of the background loop started by \<open>serviceWatcher.Add\<close>, given what
  \<open>watcher.Next()\<close> returned.\<close>

definition watch_iteration ::
  "(string \<Rightarrow> error + URL) \<Rightarrow> (string \<Rightarrow> int) \<Rightarrow> string \<Rightarrow> error + ServiceInstance list
     \<Rightarrow> serviceWatcher \<Rightarrow> loop_control \<times> serviceWatcher" where
  "watch_iteration url_Parse ParseInt endpoint next s =
     (case next of
        Inl err \<Rightarrow> if errors_Is err Canceled then (Return, s) else (Continue_after_sleep, s)
      | Inr services \<Rightarrow>
          if length services = 0 then (Continue, s)
          else (Continue,
                doCallback url_Parse ParseInt endpoint services
                  (setSelectedCache endpoint services s)))"

text \<open>The loop itself, run on the results that successive \<open>watcher.Next()\<close> calls
  deliver, until it returns or the results given are used up.\<close>

fun watch_loop ::
  "(string \<Rightarrow> error + URL) \<Rightarrow> (string \<Rightarrow> int) \<Rightarrow> string
     \<Rightarrow> (error + ServiceInstance list) list \<Rightarrow> serviceWatcher \<Rightarrow> serviceWatcher" where
  "watch_loop url_Parse ParseInt endpoint [] s = s"
| "watch_loop url_Parse ParseInt endpoint (next # nexts) s =
     (case watch_iteration url_Parse ParseInt endpoint next s of
        (Return, s') \<Rightarrow> s'
      | (Continue, s') \<Rightarrow> watch_loop url_Parse ParseInt endpoint nexts s'
      | (Continue_after_sleep, s') \<Rightarrow> watch_loop url_Parse ParseInt endpoint nexts s')"

section \<open>router/mux: the path cleaner\<close>

text \<open>\<open>path.Clean\<close> of the Go standard library, which \<open>cleanPath\<close> calls, written after
  its implementation. The output buffer \<open>out\<close> holds the \<open>out.w\<close> bytes written so far,
  \<open>rest\<close> is \<open>path[r:]\<close>.\<close>

text \<open>Backtracking over the last element on a \<open>..\<close>:
  \<open>out.w--; for out.w > dotdot && out.index(out.w) != '/' { out.w-- }\<close>.\<close>

function backtrack_loop :: "string \<Rightarrow> nat \<Rightarrow> nat \<Rightarrow> nat" where
  "backtrack_loop buf dotdot w =
     (if w > dotdot \<and> buf ! w \<noteq> CHR ''/'' then backtrack_loop buf dotdot (w - 1) else w)"
  by pat_completeness auto
termination
  by (relation "measure (\<lambda>(buf, dotdot, w). w)") auto

definition backtrack :: "string \<Rightarrow> nat \<Rightarrow> string" where
  "backtrack out dotdot = take (backtrack_loop out dotdot (length out - 1)) out"

text \<open>The tests of the loop on \<open>rest = path[r:]\<close>:
  \<open>path[r] == '.' && (r+1 == n || path[r+1] == '/')\<close> and
  \<open>path[r] == '.' && path[r+1] == '.' && (r+2 == n || path[r+2] == '/')\<close>.\<close>

definition dot_element :: "string \<Rightarrow> bool" where
  "dot_element rest =
     (case rest of
        [] \<Rightarrow> False
      | c # cs \<Rightarrow> c = CHR ''.'' \<and> (case cs of [] \<Rightarrow> True | d # ds \<Rightarrow> d = CHR ''/''))"

definition dotdot_element :: "string \<Rightarrow> bool" where
  "dotdot_element rest =
     (case rest of
        [] \<Rightarrow> False
      | c # cs \<Rightarrow>
          c = CHR ''.'' \<and>
          (case cs of
             [] \<Rightarrow> False
           | d # ds \<Rightarrow> d = CHR ''.'' \<and> (case ds of [] \<Rightarrow> True | e # es \<Rightarrow> e = CHR ''/'')))"

function Clean_loop :: "bool \<Rightarrow> string \<Rightarrow> nat \<Rightarrow> string \<Rightarrow> string" where
  "Clean_loop rooted out dotdot [] = out"
| "Clean_loop rooted out dotdot (c # cs) =
     (if c = CHR ''/'' then Clean_loop rooted out dotdot cs
      else if dot_element (c # cs) then Clean_loop rooted out dotdot cs
      else if dotdot_element (c # cs)
      then (if length out > dotdot
            then Clean_loop rooted (backtrack out dotdot) dotdot (drop 1 cs)
            else if \<not> rooted
            then (let out' = (if length out > 0 then out @ ''/'' else out) @ ''..''
                  in Clean_loop rooted out' (length out') (drop 1 cs))
            else Clean_loop rooted out dotdot (drop 1 cs))
      else (let out' = (if (rooted \<and> length out \<noteq> 1) \<or> (\<not> rooted \<and> length out \<noteq> 0)
                        then out @ ''/'' else out)
            in Clean_loop rooted (out' @ takeWhile (\<lambda>x. x \<noteq> CHR ''/'') (c # cs)) dotdot
                 (dropWhile (\<lambda>x. x \<noteq> CHR ''/'') cs)))"
  by pat_completeness auto
termination
  by (relation "measure (\<lambda>(rooted, out, dotdot, rest). length rest)")
     (auto simp: le_imp_less_Suc length_dropWhile_le)

definition Clean :: "string \<Rightarrow> string" where
  "Clean path =
     (if path = [] then ''.''
      else (let rooted = (hd path = CHR ''/'');
                res = (if rooted then Clean_loop rooted ''/'' 1 (drop 1 path)
                       else Clean_loop rooted [] 0 path)
            in if length res = 0 then ''.'' else res))"

definition cleanPath :: "string \<Rightarrow> string" where
  "cleanPath p =
     (if p = [] then ''/''
      else (let p = (if hd p \<noteq> CHR ''/'' then ''/'' @ p else p);
                np = Clean p
            in if last p = CHR ''/'' \<and> np \<noteq> ''/'' then np @ ''/'' else np))"

section \<open>proxy: retry telemetry\<close>

text \<open>The counters the retry loop feeds: the two series of the \<open>requests_retry_state\<close>
  metric and the calls made on the adaptive breaker \<open>retryBreaker\<close>.\<close>

record RetryTelemetry =
  retry_state_true :: nat
  retry_state_false :: nat
  MarkSuccess_calls :: nat
  MarkFailed_calls :: nat

definition retryStateIncr :: "bool \<Rightarrow> RetryTelemetry \<Rightarrow> RetryTelemetry" where
  "retryStateIncr success t =
     (if success then t\<lparr>retry_state_true := retry_state_true t + 1\<rparr>
      else t\<lparr>retry_state_false := retry_state_false t + 1\<rparr>)"

text \<open>The two closures returned by \<open>splitRetryMetricsHandler\<close>.\<close>

definition markSuccessStat :: "int \<Rightarrow> RetryTelemetry \<Rightarrow> RetryTelemetry" where
  "markSuccessStat i t = (if i \<le> 0 then t else retryStateIncr True t)"

definition markFailedStat :: "int \<Rightarrow> error \<Rightarrow> RetryTelemetry \<Rightarrow> RetryTelemetry" where
  "markFailedStat i err t =
     (if i \<le> 0 then t
      else if errors_Is err Canceled then t
      else retryStateIncr False t)"

text \<open>The closures \<open>markSuccess\<close> and \<open>markFailed\<close> of \<open>buildEndpoint\<close>.\<close>

definition markSuccess :: "int \<Rightarrow> RetryTelemetry \<Rightarrow> RetryTelemetry" where
  "markSuccess i t =
     (let t = markSuccessStat i t
      in if i > 0 then t\<lparr>MarkSuccess_calls := MarkSuccess_calls t + 1\<rparr> else t)"

definition markFailed :: "int \<Rightarrow> error \<Rightarrow> RetryTelemetry \<Rightarrow> RetryTelemetry" where
  "markFailed i err t =
     (let t = markFailedStat i err t
      in if i > 0 then t\<lparr>MarkFailed_calls := MarkFailed_calls t + 1\<rparr> else t)"

section \<open>proxy: writeError\<close>

text \<open>\<open>strconv.Itoa\<close>.\<close>

function FormatUint :: "nat \<Rightarrow> string" where
  "FormatUint n =
     (if n < 10 then [''0123456789'' ! n]
      else FormatUint (n div 10) @ [''0123456789'' ! (n mod 10)])"
  by pat_completeness auto
termination
  by (relation "measure id") auto

definition Itoa :: "int \<Rightarrow> string" where
  "Itoa i = (if i < 0 then CHR ''-'' # FormatUint (nat (- i)) else FormatUint (nat i))"

text \<open>The response writer: its header map, the status codes passed to \<open>WriteHeader\<close> in
  order, and the \<open>code\<close> labels with which \<open>requests_code_total\<close> was incremented.\<close>

record ResponseWriter =
  rw_Header :: Header
  WriteHeader_calls :: "int list"
  requests_code_total :: "int list"

definition requestsTotalIncr :: "int \<Rightarrow> ResponseWriter \<Rightarrow> ResponseWriter" where
  "requestsTotalIncr statusCode w = w\<lparr>requests_code_total := requests_code_total w @ [statusCode]\<rparr>"

definition WriteHeader :: "int \<Rightarrow> ResponseWriter \<Rightarrow> ResponseWriter" where
  "WriteHeader statusCode w = w\<lparr>WriteHeader_calls := WriteHeader_calls w @ [statusCode]\<rparr>"

text \<open>\<open>writeError\<close>. \<open>ToGRPCCode\<close> is \<open>status.ToGRPCCode\<close> of the kratos library, a
  parameter; \<open>labels_Protocol\<close> is \<open>labels.Protocol()\<close>, the endpoint's protocol name.\<close>

definition writeError ::
  "(int \<Rightarrow> int) \<Rightarrow> ResponseWriter \<Rightarrow> error \<Rightarrow> string \<Rightarrow> ResponseWriter" where
  "writeError ToGRPCCode w err labels_Protocol =
     (let statusCode =
            (if errors_Is err Canceled \<or> Error err = ''client disconnected'' then 499
             else if errors_Is err DeadlineExceeded then 504
             else 502);
          w = requestsTotalIncr statusCode w
      in if labels_Protocol = Protocol_String GRPC
         then (let code = Itoa (ToGRPCCode statusCode);
                   h = Header_Set (rw_Header w) ''Content-Type'' ''application/grpc'';
                   h = Header_Set h ''Grpc-Status'' code;
                   h = Header_Set h ''Grpc-Message'' (Error err)
               in WriteHeader 200 (w\<lparr>rw_Header := h\<rparr>))
         else WriteHeader statusCode w)"

section \<open>proxy: building endpoints and hot reload\<close>

text \<open>The configuration messages, as far as the proxy reads them.\<close>

record Middleware_config =
  mw_Name :: string
  mw_Required :: bool

record Retry =
  Attempts :: nat
  PerTryTimeout :: "int option"
  Conditions :: "string list"

record Endpoint =
  Path :: string
  Method :: string
  ep_Host :: string
  ep_Protocol :: Protocol
  Timeout :: "int option"
  ep_Retry :: "Retry option"
  Middlewares :: "Middleware_config list"

record Gateway =
  gw_Endpoints :: "Endpoint list"
  gw_Middlewares :: "Middleware_config list"

text \<open>A client made by the client factory is identified by a number; it is the
  endpoint's \<open>io.Closer\<close>.\<close>

type_synonym closer = nat

text \<open>The collaborators of \<open>Proxy.Update\<close> that live outside the proxy package: the
  client factory, the middleware factory, \<open>condition.ParseConditon\<close> and the error
  \<open>GetError()\<close> that gorilla/mux reports for a route built from pattern, method and
  host.\<close>

record collaborators =
  clientFactory :: "Endpoint \<Rightarrow> error + closer"
  middlewareFactory :: "Middleware_config \<Rightarrow> error + string"
  ParseConditon :: "string list \<Rightarrow> error + string list"
  route_GetError :: "string \<Rightarrow> string \<Rightarrow> string \<Rightarrow> error option"

text \<open>\<open>buildMiddleware\<close> walks the list from its last element to its first and wraps
  \<open>next\<close>; the round tripper is kept as the chain of middlewares wrapped around the
  client, outermost first.\<close>

fun buildMiddleware_loop ::
  "collaborators \<Rightarrow> Middleware_config list \<Rightarrow> string list \<Rightarrow> error + string list" where
  "buildMiddleware_loop cs [] next = Inr next"
| "buildMiddleware_loop cs (m # ms_rev) next =
     (case middlewareFactory cs m of
        Inl err \<Rightarrow>
          if errors_Is err ErrNotFound then buildMiddleware_loop cs ms_rev next else Inl err
      | Inr mw \<Rightarrow> buildMiddleware_loop cs ms_rev (mw # next))"

definition buildMiddleware ::
  "collaborators \<Rightarrow> Middleware_config list \<Rightarrow> string list \<Rightarrow> error + string list" where
  "buildMiddleware cs ms next = buildMiddleware_loop cs (rev ms) next"

record retryStrategy =
  attempts :: int
  timeout :: int
  perTryTimeout :: int
  conditions :: "string list"

definition Second :: int where
  "Second = 1000000000"

definition calcTimeout :: "Endpoint \<Rightarrow> int" where
  "calcTimeout endpoint =
     (let timeout = (case Timeout endpoint of Some d \<Rightarrow> d | None \<Rightarrow> 0)
      in if timeout \<le> 0 then Second else timeout)"

definition calcAttempts :: "Endpoint \<Rightarrow> int" where
  "calcAttempts endpoint =
     (case ep_Retry endpoint of
        None \<Rightarrow> 1
      | Some r \<Rightarrow> if Attempts r = 0 then 1 else int (Attempts r))"

definition calcPerTryTimeout :: "Endpoint \<Rightarrow> int" where
  "calcPerTryTimeout endpoint =
     (let perTryTimeout =
            (case ep_Retry endpoint of
               Some r \<Rightarrow>
                 (case PerTryTimeout r of
                    Some d \<Rightarrow> d
                  | None \<Rightarrow> (case Timeout endpoint of Some d \<Rightarrow> d | None \<Rightarrow> 0))
             | None \<Rightarrow> (case Timeout endpoint of Some d \<Rightarrow> d | None \<Rightarrow> 0))
      in if perTryTimeout \<le> 0 then Second else perTryTimeout)"

definition parseRetryConditon :: "collaborators \<Rightarrow> Endpoint \<Rightarrow> error + string list" where
  "parseRetryConditon cs endpoint =
     (case ep_Retry endpoint of
        None \<Rightarrow> Inr []
      | Some r \<Rightarrow> ParseConditon cs (Conditions r))"

definition prepareRetryStrategy :: "collaborators \<Rightarrow> Endpoint \<Rightarrow> error + retryStrategy" where
  "prepareRetryStrategy cs e =
     (case parseRetryConditon cs e of
        Inl err \<Rightarrow> Inl err
      | Inr conds \<Rightarrow>
          Inr \<lparr>attempts = calcAttempts e, timeout = calcTimeout e,
               perTryTimeout = calcPerTryTimeout e, conditions = conds\<rparr>)"

text \<open>The handler that \<open>buildEndpoint\<close> returns is a closure over the endpoint, the
  composed round tripper and the retry strategy.\<close>

record Endpoint_handler =
  h_endpoint :: Endpoint
  h_tripper :: "string list"
  h_retryStrategy :: retryStrategy

text \<open>\<open>closeOnError(closer, &err)\<close>, run as a deferred call: \<open>closed\<close> is the log of
  \<open>Close()\<close> calls made so far.\<close>

definition closeOnError :: "closer \<Rightarrow> error option \<Rightarrow> closer list \<Rightarrow> closer list" where
  "closeOnError c err closed = (case err of None \<Rightarrow> closed | Some e \<Rightarrow> closed @ [c])"

definition buildEndpoint ::
  "collaborators \<Rightarrow> Endpoint \<Rightarrow> Middleware_config list \<Rightarrow> closer list
     \<Rightarrow> (error + Endpoint_handler \<times> closer) \<times> closer list" where
  "buildEndpoint cs e ms closed =
     (case clientFactory cs e of
        Inl err \<Rightarrow> (Inl err, closed)
      | Inr cl \<Rightarrow>
          (let result =
                 (case buildMiddleware cs (Middlewares e) [] of
                    Inl err \<Rightarrow> Inl err
                  | Inr tripper \<Rightarrow>
                      (case buildMiddleware cs ms tripper of
                         Inl err \<Rightarrow> Inl err
                       | Inr tripper \<Rightarrow>
                           (case prepareRetryStrategy cs e of
                              Inl err \<Rightarrow> Inl err
                            | Inr strategy \<Rightarrow>
                                Inr (\<lparr>h_endpoint = e, h_tripper = tripper,
                                      h_retryStrategy = strategy\<rparr>, cl))));
               retError = (case result of Inl err \<Rightarrow> Some err | Inr x \<Rightarrow> None)
           in (result, closeOnError cl retError closed)))"

text \<open>The mux router: its routes in registration order and \<open>allCloser\<close>.\<close>

datatype route_handler = metrics_handler | endpoint_handler Endpoint_handler

datatype path_matcher = match_Path string | match_PathPrefix string

record Route =
  rt_handler :: route_handler
  rt_host :: string
  rt_path :: path_matcher
  rt_methods :: "string list"

record Router =
  routes :: "Route list"
  allCloser :: "closer list"

definition NewRouter :: Router where
  "NewRouter =
     \<lparr>routes = [\<lparr>rt_handler = metrics_handler, rt_host = [], rt_path = match_Path ''/metrics'',
                  rt_methods = []\<rparr>],
      allCloser = []\<rparr>"

definition strings_HasSuffix :: "string \<Rightarrow> string \<Rightarrow> bool" where
  "strings_HasSuffix s suffix =
     (length suffix \<le> length s \<and> drop (length s - length suffix) s = suffix)"

definition strings_TrimRight :: "string \<Rightarrow> string \<Rightarrow> string" where
  "strings_TrimRight s cutset = rev (dropWhile (\<lambda>c. c \<in> set cutset) (rev s))"

text \<open>\<open>muxRouter.Handle\<close>: the route is created in the router first; the closer is
  recorded only when the route has no error.\<close>

definition Router_Handle ::
  "collaborators \<Rightarrow> string \<Rightarrow> string \<Rightarrow> string \<Rightarrow> Endpoint_handler \<Rightarrow> closer \<Rightarrow> Router
     \<Rightarrow> error option \<times> Router" where
  "Router_Handle cs pattern method host handler cl r =
     (let route = \<lparr>rt_handler = endpoint_handler handler, rt_host = host,
                   rt_path = (if strings_HasSuffix pattern ''*''
                              then match_PathPrefix (strings_TrimRight pattern ''*'')
                              else match_Path pattern),
                   rt_methods = (if method \<noteq> [] \<and> method \<noteq> ''*'' then [method, ''OPTIONS'']
                                 else [])\<rparr>;
          r = r\<lparr>routes := routes r @ [route]\<rparr>
      in case route_GetError cs pattern method host of
           Some err \<Rightarrow> (Some err, r)
         | None \<Rightarrow> (None, r\<lparr>allCloser := allCloser r @ [cl]\<rparr>))"

text \<open>The proxy: the router in the atomic cell (the one \<open>ServeHTTP\<close> loads), the old
  routers handed to \<open>tryCloseRouter\<close>, and the log of \<open>Close()\<close> calls on clients.\<close>

record Proxy =
  router :: Router
  tryCloseRouter_calls :: "Router list"
  Close_calls :: "closer list"

text \<open>The loop of \<open>Update\<close> over \<open>c.Endpoints\<close>. \<open>deferred\<close> is the stack of closers
  whose \<open>closeOnError\<close> has been deferred, the latest first. The result carries the error
  with which the loop returned, if any.\<close>

fun Update_loop ::
  "collaborators \<Rightarrow> Middleware_config list \<Rightarrow> Endpoint list \<Rightarrow> Router \<Rightarrow> closer list
     \<Rightarrow> closer list \<Rightarrow> error option \<times> Router \<times> closer list \<times> closer list" where
  "Update_loop cs ms [] r deferred closed = (None, r, deferred, closed)"
| "Update_loop cs ms (e # es) r deferred closed =
     (case buildEndpoint cs e ms closed of
        (Inl err, closed) \<Rightarrow> (Some err, r, deferred, closed)
      | (Inr (handler, cl), closed) \<Rightarrow>
          (let deferred = cl # deferred in
           case Router_Handle cs (Path e) (Method e) (ep_Host e) handler cl r of
             (Some err, r) \<Rightarrow> (Some err, r, deferred, closed)
           | (None, r) \<Rightarrow> Update_loop cs ms es r deferred closed))"

text \<open>Running the deferred \<open>closeOnError\<close> calls at return, last deferred first.\<close>

fun run_deferred :: "closer list \<Rightarrow> error option \<Rightarrow> closer list \<Rightarrow> closer list" where
  "run_deferred [] retError closed = closed"
| "run_deferred (c # deferred) retError closed =
     run_deferred deferred retError (closeOnError c retError closed)"

definition Update :: "collaborators \<Rightarrow> Gateway \<Rightarrow> Proxy \<Rightarrow> error option \<times> Proxy" where
  "Update cs c p =
     (case Update_loop cs (gw_Middlewares c) (gw_Endpoints c) NewRouter [] (Close_calls p) of
        (retError, r, deferred, closed') \<Rightarrow>
          (case retError of
             Some err \<Rightarrow> (Some err, p\<lparr>Close_calls := run_deferred deferred retError closed'\<rparr>)
           | None \<Rightarrow>
               (None, p\<lparr>router := r,
                         tryCloseRouter_calls := tryCloseRouter_calls p @ [router p],
                         Close_calls := run_deferred deferred retError closed'\<rparr>)))"

text \<open>\<open>ServeHTTP\<close> dispatches to the router it loads from the cell.\<close>

definition ServeHTTP_router :: "Proxy \<Rightarrow> Router" where
  "ServeHTTP_router p = router p"

section \<open>proxy and client: the endpoint handler\<close>

datatype DoneInfo = DoneInfo_Err error | DoneInfo_ReplyMD Header

text \<open>The \<open>done\<close> closures: the empty function that \<open>NewRequestOptions\<close> installs, and
  the one the selector returned with the node picked in attempt \<open>i\<close>.\<close>

datatype DoneFunc = empty_DoneFunc | selector_done int string

record Response =
  StatusCode :: int
  resp_Header :: Header
  resp_Trailer :: Header
  resp_Body :: "(int \<times> error option) option"

record RequestOptions =
  Backends :: "string list"
  UpstreamStatusCode :: "int list"
  CurrentNode :: "node option"
  DoneFunc :: DoneFunc
  LastAttempt :: bool

definition NewRequestOptions :: RequestOptions where
  "NewRequestOptions =
     \<lparr>Backends = [], UpstreamStatusCode = [], CurrentNode = None, DoneFunc = empty_DoneFunc,
      LastAttempt = False\<rparr>"

text \<open>What the surroundings of one inbound request answer: reading the inbound body, the
  retry feature flag, the breaker and the request context as consulted before attempt
  \<open>i\<close>, the selector's pick and the backend's answer in attempt \<open>i\<close>, and
  \<open>condition.JudgeConditons\<close> on a response. A response body is given by what
  \<open>io.Copy\<close> to the client returns for it (bytes sent, error); \<open>None\<close> is a nil body.\<close>

record request_world =
  ReadAll_Body :: "error option"
  retryFeature_Enabled :: "int \<Rightarrow> bool"
  retryBreaker_Allow :: "int \<Rightarrow> error option"
  ctx_Err :: "int \<Rightarrow> error option"
  selector_Select :: "int \<Rightarrow> error + node"
  client_Do :: "int \<Rightarrow> error + Response"
  judgeRetryRequired :: "Response \<Rightarrow> bool"

text \<open>The variables of the handler closure while it runs: \<open>err\<close>, \<open>resp\<close>,
  \<open>reqOpts\<close> and the retry telemetry; and two logs kept for the statements about the
  selector: the nodes that \<open>Select\<close> returned (attempt, node), and the calls made to the
  \<open>done\<close> closures it returned with them (attempt, node address, argument).\<close>

record handler_state =
  hs_err :: "error option"
  hs_resp :: "Response option"
  hs_reqOpts :: RequestOptions
  hs_telemetry :: RetryTelemetry
  hs_selected :: "(int \<times> node) list"
  hs_done_calls :: "(int \<times> string \<times> DoneInfo) list"

definition call_DoneFunc ::
  "DoneFunc \<Rightarrow> DoneInfo \<Rightarrow> (int \<times> string \<times> DoneInfo) list \<Rightarrow> (int \<times> string \<times> DoneInfo) list" where
  "call_DoneFunc f di calls =
     (case f of empty_DoneFunc \<Rightarrow> calls | selector_done i addr \<Rightarrow> calls @ [(i, addr, di)])"

text \<open>\<open>client.RoundTrip\<close> in attempt \<open>i\<close>.\<close>

definition client_RoundTrip ::
  "request_world \<Rightarrow> int \<Rightarrow> handler_state \<Rightarrow> (error + Response) \<times> handler_state" where
  "client_RoundTrip world i st =
     (case selector_Select world i of
        Inl e \<Rightarrow> (Inl e, st)
      | Inr n \<Rightarrow>
          (let addr = address n;
               done = selector_done i addr;
               opts = hs_reqOpts st;
               opts = opts\<lparr>CurrentNode := Some n, Backends := Backends opts @ [addr]\<rparr>;
               st = st\<lparr>hs_selected := hs_selected st @ [(i, n)]\<rparr>
           in case client_Do world i of
                Inl e \<Rightarrow>
                  (Inl e,
                   st\<lparr>hs_done_calls := call_DoneFunc done (DoneInfo_Err e) (hs_done_calls st),
                      hs_reqOpts := opts\<lparr>UpstreamStatusCode := UpstreamStatusCode opts @ [0]\<rparr>\<rparr>)
              | Inr r \<Rightarrow>
                  (Inr r,
                   st\<lparr>hs_reqOpts :=
                        opts\<lparr>UpstreamStatusCode := UpstreamStatusCode opts @ [StatusCode r],
                             DoneFunc := done\<rparr>\<rparr>)))"

text \<open>The attempt loop of the handler, \<open>for i := 0; i < retryStrategy.attempts; i++\<close>.
  The round tripper is the client; the middlewares composed around it are taken to hand
  requests and responses through.\<close>

function attempt_loop :: "request_world \<Rightarrow> int \<Rightarrow> int \<Rightarrow> handler_state \<Rightarrow> handler_state" where
  "attempt_loop world n i st =
     (if i < n
      then (if i > 0 \<and> \<not> retryFeature_Enabled world i then st
            else (case (if i > 0 then retryBreaker_Allow world i else None) of
                    Some e \<Rightarrow> st\<lparr>hs_telemetry := markFailed i e (hs_telemetry st)\<rparr>
                  | None \<Rightarrow>
                      (let st = (if i + 1 \<ge> n
                                 then st\<lparr>hs_reqOpts := (hs_reqOpts st)\<lparr>LastAttempt := True\<rparr>\<rparr>
                                 else st);
                           st = st\<lparr>hs_err := ctx_Err world i\<rparr>
                       in case hs_err st of
                            Some e \<Rightarrow> st\<lparr>hs_telemetry := markFailed i e (hs_telemetry st)\<rparr>
                          | None \<Rightarrow>
                              (case client_RoundTrip world i st of
                                 (Inl e, st) \<Rightarrow>
                                   attempt_loop world n (i + 1)
                                     (st\<lparr>hs_resp := None, hs_err := Some e,
                                         hs_telemetry := markFailed i e (hs_telemetry st)\<rparr>)
                               | (Inr r, st) \<Rightarrow>
                                   (let st = st\<lparr>hs_resp := Some r, hs_err := None\<rparr>
                                    in if \<not> judgeRetryRequired world r
                                       then st\<lparr>hs_reqOpts := (hs_reqOpts st)\<lparr>LastAttempt := True\<rparr>,
                                               hs_telemetry := markSuccess i (hs_telemetry st)\<rparr>
                                       else attempt_loop world n (i + 1)
                                              (st\<lparr>hs_telemetry :=
                                                    markFailed i (Plain ''assertion failed'')
                                                      (hs_telemetry st)\<rparr>))))))
      else st)"
  by pat_completeness auto
termination
  by (relation "measure (\<lambda>(world, n, i, st). nat (n - i))") auto

definition getReplyMD :: "Endpoint \<Rightarrow> Response \<Rightarrow> Header" where
  "getReplyMD ep resp = (if ep_Protocol ep = GRPC then resp_Trailer resp else resp_Header resp)"

text \<open>\<open>doCopyBody\<close>: the returned flag, the done log and the writer's header map.\<close>

definition doCopyBody ::
  "Endpoint \<Rightarrow> Response \<Rightarrow> handler_state \<Rightarrow> ResponseWriter
     \<Rightarrow> bool \<times> handler_state \<times> ResponseWriter" where
  "doCopyBody e resp st w =
     (case resp_Body resp of
        None \<Rightarrow> (True, st, w)
      | Some (sent, copy_err) \<Rightarrow>
          (case copy_err of
             Some er \<Rightarrow>
               (False,
                st\<lparr>hs_done_calls :=
                     call_DoneFunc (DoneFunc (hs_reqOpts st)) (DoneInfo_Err er) (hs_done_calls st)\<rparr>,
                w)
           | None \<Rightarrow>
               (True,
                st\<lparr>hs_done_calls :=
                     call_DoneFunc (DoneFunc (hs_reqOpts st)) (DoneInfo_ReplyMD (getReplyMD e resp))
                       (hs_done_calls st)\<rparr>,
                w\<lparr>rw_Header :=
                    (\<lambda>k. if strings_HasPrefix k ''Trailer:''
                          then (case resp_Trailer resp (drop 8 k) of
                                  Some v \<Rightarrow> Some v
                                | None \<Rightarrow> rw_Header w k)
                          else rw_Header w k)\<rparr>)))"

text \<open>How the handler ended: it wrote an error, it wrote the response, or it dereferenced
  a nil response (which \<open>Proxy.ServeHTTP\<close> recovers from).\<close>

datatype handler_end = wrote_error | wrote_response | nil_response_panic

definition initial_handler_state :: handler_state where
  "initial_handler_state =
     \<lparr>hs_err = None, hs_resp = None, hs_reqOpts = NewRequestOptions,
      hs_telemetry = \<lparr>retry_state_true = 0, retry_state_false = 0,
                      MarkSuccess_calls = 0, MarkFailed_calls = 0\<rparr>,
      hs_selected = [], hs_done_calls = []\<rparr>"

text \<open>The handler returned by \<open>buildEndpoint\<close>, serving one request (byte counters and
  the duration histogram are left out).\<close>

definition serve ::
  "(int \<Rightarrow> int) \<Rightarrow> request_world \<Rightarrow> Endpoint_handler \<Rightarrow> ResponseWriter
     \<Rightarrow> handler_end \<times> handler_state \<times> ResponseWriter" where
  "serve ToGRPCCode world h w =
     (let e = h_endpoint h;
          labels_Protocol = Protocol_String (ep_Protocol e);
          st = initial_handler_state
      in case ReadAll_Body world of
           Some er \<Rightarrow> (wrote_error, st, writeError ToGRPCCode w er labels_Protocol)
         | None \<Rightarrow>
             (let st = attempt_loop world (attempts (h_retryStrategy h)) 0 st
              in case hs_err st of
                   Some er \<Rightarrow> (wrote_error, st, writeError ToGRPCCode w er labels_Protocol)
                 | None \<Rightarrow>
                     (case hs_resp st of
                        None \<Rightarrow> (nil_response_panic, st, w)
                      | Some resp \<Rightarrow>
                          (let w = w\<lparr>rw_Header := rw_Header w ++ resp_Header resp\<rparr>;
                               w = WriteHeader (StatusCode resp) w;
                               (ok, st, w) = doCopyBody e resp st w;
                               w = requestsTotalIncr (StatusCode resp) w
                           in (wrote_response, st, w)))))"

section \<open>Reference notions used in the statements\<close>

text \<open>The number that a byte string denotes when read as an unsigned big-endian
  integer, most significant byte first.\<close>

definition big_endian_value :: "byte list \<Rightarrow> nat" where
  "big_endian_value bs = foldl (\<lambda>a b. a * 256 + unat b) 0 bs"

text \<open>An endpoint builds and registers: \<open>buildEndpoint\<close> returns a handler for it and
  the route made from its pattern, method and host has no error.\<close>

definition endpoint_builds :: "collaborators \<Rightarrow> Middleware_config list \<Rightarrow> Endpoint \<Rightarrow> bool" where
  "endpoint_builds cs ms e =
     (case fst (buildEndpoint cs e ms []) of
        Inl err \<Rightarrow> False
      | Inr built \<Rightarrow> route_GetError cs (Path e) (Method e) (ep_Host e) = None)"

text \<open>The closers that come into being while an endpoint is built: the client the factory
  made for it, if it made one.\<close>

definition created_closers :: "collaborators \<Rightarrow> Endpoint \<Rightarrow> closer list" where
  "created_closers cs e = (case clientFactory cs e of Inl err \<Rightarrow> [] | Inr cl \<Rightarrow> [cl])"

text \<open>The endpoint a route serves; \<open>None\<close> for the built-in metrics route.\<close>

definition route_endpoint :: "Route \<Rightarrow> Endpoint option" where
  "route_endpoint rt =
     (case rt_handler rt of metrics_handler \<Rightarrow> None | endpoint_handler h \<Rightarrow> Some (h_endpoint h))"

text \<open>What holds of the two selector logs before attempt \<open>i\<close> of the loop: every
  selection so far belongs to an earlier attempt, one per attempt; every \<open>done\<close> call so
  far went, once, to the node of an attempt whose transport call failed, with that error,
  and every such node got its call; and a response held in \<open>resp\<close> is the answer to the
  attempt whose \<open>done\<close> sits in \<open>reqOpts.DoneFunc\<close>.\<close>

definition selector_logs_ok :: "request_world \<Rightarrow> int \<Rightarrow> handler_state \<Rightarrow> bool" where
  "selector_logs_ok world i st =
     (distinct (map fst (hs_selected st))
      \<and> (\<forall>j \<in> fst ` set (hs_selected st). j < i)
      \<and> distinct (map fst (hs_done_calls st))
      \<and> (\<forall>c \<in> set (hs_done_calls st).
            \<exists>n e. (fst c, n) \<in> set (hs_selected st) \<and> fst (snd c) = address n
                  \<and> client_Do world (fst c) = Inl e \<and> snd (snd c) = DoneInfo_Err e)
      \<and> (\<forall>s \<in> set (hs_selected st). \<forall>e.
            client_Do world (fst s) = Inl e
              \<longrightarrow> (fst s, address (snd s), DoneInfo_Err e) \<in> set (hs_done_calls st))
      \<and> (\<forall>r. hs_resp st = Some r \<longrightarrow>
            (\<exists>j n. (j, n) \<in> set (hs_selected st) \<and> client_Do world j = Inr r
                   \<and> DoneFunc (hs_reqOpts st) = selector_done j (address n))))"

text \<open>Clean rooted paths, described by their elements: an element is a non-empty name
  without a slash other than \<open>.\<close> and \<open>..\<close>; the path of a list of elements is
  \<open>/\<close> for the empty list and otherwise every element preceded by a slash.\<close>

definition path_element :: "string \<Rightarrow> bool" where
  "path_element seg = (seg \<noteq> [] \<and> CHR ''/'' \<notin> set seg \<and> seg \<noteq> ''.'' \<and> seg \<noteq> ''..'')"

definition rooted_path :: "string list \<Rightarrow> string" where
  "rooted_path segs = (if segs = [] then ''/'' else concat (map ((#) CHR ''/'') segs))"

section \<open>Transcoder: properties\<close>

lemma frame_eq: "frame b = 0 # PutUint32 (of_nat (length b)) @ b"
  by (simp add: frame_def copy_at_def PutUint32_def Let_def replicate_append_same
        numeral_eq_Suc)

lemma be_arith:
  fixes x :: nat
  assumes "x < 2 ^ 32"
  shows "((x div 2 ^ 24 mod 256 * 256 + x div 2 ^ 16 mod 256) * 256 + x div 2 ^ 8 mod 256) * 256
           + x mod 256 = x"
proof -
  define x1 where "x1 = x div 256"
  define x2 where "x2 = x1 div 256"
  define x3 where "x3 = x2 div 256"
  have e1: "x div 2 ^ 8 = x1" by (simp add: x1_def)
  have e2: "x div 2 ^ 16 = x2"
    using div_mult2_eq [of x 256 256] by (simp add: x1_def x2_def)
  have e3: "x div 2 ^ 24 = x3"
    using div_mult2_eq [of x "256 * 256" 256] div_mult2_eq [of x 256 256]
    by (simp add: x1_def x2_def x3_def)
  have "x3 < 256"
    using assms e3 by (simp add: less_mult_imp_div_less)
  then have m3: "x3 mod 256 = x3" by simp
  have d2: "x3 * 256 + x2 mod 256 = x2" by (simp add: x3_def)
  have d1: "x2 * 256 + x1 mod 256 = x1" by (simp add: x2_def)
  have d0: "x1 * 256 + x mod 256 = x" by (simp add: x1_def)
  show ?thesis
    unfolding e1 e2 e3 m3 d2 d1 d0 ..
qed

lemma big_endian_PutUint32: "big_endian_value (PutUint32 v) = unat v"
proof -
  have lt: "unat v < 2 ^ 32" using unsigned_less [of v] by simp
  have a: "unat (ucast (drop_bit n v) :: byte) = unat v div 2 ^ n mod 256" for n
    by (simp add: unsigned_ucast_eq unat_drop_bit_eq take_bit_eq_mod)
      (simp add: drop_bit_eq_div)
  have b: "unat (ucast v :: byte) = unat v mod 256"
    by (simp add: unsigned_ucast_eq take_bit_eq_mod)
  have c: "big_endian_value [b1, b2, b3, b4]
             = ((unat b1 * 256 + unat b2) * 256 + unat b3) * 256 + unat b4" for b1 b2 b3 b4
    by (simp add: big_endian_value_def)
  show ?thesis
    unfolding PutUint32_def c a b by (rule be_arith [OF lt])
qed

lemma unat_uint32_of_len: "unat (of_nat n :: 32 word) = n mod 2 ^ 32"
  by (simp add: unsigned_of_nat take_bit_eq_mod)

text \<open>C4, at the content type \<open>application/proto\<close>: \<open>strings.TrimLeft\<close> takes its second
  argument as a set of characters, so after the prefix \<open>application/\<close> it also strips the
  leading \<open>p\<close> of \<open>proto\<close>, and the outbound request carries the content type
  \<open>application/grpc+roto\<close> instead of \<open>application/grpc+proto\<close>.\<close>

theorem transcoder_content_type_proto:
  "map_sum id (\<lambda>r. Header_Get (req_Header r) ''Content-Type'')
     (transcoder_request GRPC
        \<lparr>req_Header = [''Content-Type'' \<mapsto> [''application/proto'']],
         req_ContentLength = 0, req_Body = Inr []\<rparr>)
   = Inr ''application/grpc+roto''"
  by (simp add: transcoder_request_def Header_Get_def Header_Set_def Header_Del_def
        strings_HasPrefix_def strings_TrimLeft_def Let_def)

theorem transcoder_content_type_proto_witness:
  "map_sum id (\<lambda>r. Header_Get (req_Header r) ''Content-Type'')
     (transcoder_request GRPC
        \<lparr>req_Header = [''Content-Type'' \<mapsto> [''application/proto'']],
         req_ContentLength = 0, req_Body = Inr []\<rparr>)
   \<noteq> Inr ''application/grpc+proto''"
  using transcoder_content_type_proto by simp

text \<open>C5: for a request that the transcoder converts (GRPC endpoint, inbound content type
  not starting with \<open>application/grpc\<close>, body read as \<open>B\<close> of length \<open>L\<close>), the
  request handed on has the body \<open>0x00\<close>, then four bytes, then \<open>B\<close>; the four bytes
  read as a big-endian number give \<open>L\<close> (as a 32-bit value, \<open>L mod 2^32\<close>); its
  \<open>ContentLength\<close> is \<open>L + 5\<close>; and its header has no \<open>Content-Length\<close> entry.\<close>

theorem transcoder_request_framing:
  assumes "\<not> strings_HasPrefix (Header_Get (req_Header req) ''Content-Type'') ''application/grpc''"
    and "req_Body req = Inr B"
  shows "\<exists>out len4.
           transcoder_request GRPC req = Inr out
         \<and> req_Body out = Inr (0 # len4 @ B)
         \<and> length len4 = 4
         \<and> big_endian_value len4 = length B mod 2 ^ 32
         \<and> req_ContentLength out = int (length B) + 5
         \<and> req_Header out ''Content-Length'' = None"
proof -
  let ?len4 = "PutUint32 (of_nat (length B))"
  have "length ?len4 = 4" by (simp add: PutUint32_def)
  moreover have "big_endian_value ?len4 = length B mod 2 ^ 32"
    by (simp only: big_endian_PutUint32 unat_uint32_of_len)
  moreover have "\<exists>out. transcoder_request GRPC req = Inr out
         \<and> req_Body out = Inr (0 # ?len4 @ B)
         \<and> req_ContentLength out = int (length B) + 5
         \<and> req_Header out ''Content-Length'' = None"
    using assms
    by (simp add: transcoder_request_def Let_def frame_eq Header_Del_def PutUint32_def)
  ultimately show ?thesis by blast
qed

theorem transcoder_request_framing_witness:
  "\<not> strings_HasPrefix
       (Header_Get [''Content-Type'' \<mapsto> [''application/json''], ''Content-Length'' \<mapsto> [''2'']]
          ''Content-Type'') ''application/grpc''
   \<and> (\<exists>out len4.
           transcoder_request GRPC
             \<lparr>req_Header = [''Content-Type'' \<mapsto> [''application/json''],
                            ''Content-Length'' \<mapsto> [''2'']],
              req_ContentLength = 2, req_Body = Inr [123, 125]\<rparr> = Inr out
         \<and> req_Body out = Inr (0 # len4 @ [123, 125])
         \<and> length len4 = 4
         \<and> big_endian_value len4 = 2
         \<and> req_ContentLength out = 7
         \<and> req_Header out ''Content-Length'' = None)"
proof -
  let ?h = "[''Content-Type'' \<mapsto> [''application/json''], ''Content-Length'' \<mapsto> [''2'']]"
  let ?req = "\<lparr>req_Header = ?h, req_ContentLength = 2, req_Body = Inr [123, 125]\<rparr>"
  have h: "\<not> strings_HasPrefix (Header_Get ?h ''Content-Type'') ''application/grpc''"
    by (simp add: strings_HasPrefix_def Header_Get_def)
  then have h': "\<not> strings_HasPrefix (Header_Get (req_Header ?req) ''Content-Type'')
                    ''application/grpc''"
    by simp
  have b: "req_Body ?req = Inr [123, 125]" by simp
  have m: "length [123 :: byte, 125] mod 2 ^ 32 = 2" by simp
  have i: "int (length [123 :: byte, 125]) + 5 = 7" by simp
  show ?thesis
    using h transcoder_request_framing [OF h' b] unfolding m i by blast
qed

section \<open>Retry-exclusion filter: properties\<close>

lemma filter_loop_inv:
  "w \<le> i \<Longrightarrow> i \<le> length arr \<Longrightarrow>
   filter_loop selected arr i w = (arr', w') \<Longrightarrow>
   take w' arr' = take w arr @ filter (\<lambda>n. selected (address n) = None) (drop i arr)
   \<and> w \<le> w' \<and> (w' = w \<longrightarrow> arr' = arr) \<and> length arr' = length arr"
proof (induction selected arr i w arbitrary: arr' w' rule: filter_loop.induct)
  case (1 selected arr i w)
  show ?case
  proof (cases "i < length arr")
    case False
    with "1.prems" show ?thesis by simp
  next
    case True
    note lt = True
    have dr: "drop i arr = arr ! i # drop (i + 1) arr"
      using lt by (simp add: Cons_nth_drop_Suc)
    show ?thesis
    proof (cases "selected (address (arr ! i)) = None")
      case True
      let ?arr = "arr[w := arr ! i]"
      from "1.prems" lt True have call: "filter_loop selected ?arr (i + 1) (w + 1) = (arr', w')"
        by (simp add: Let_def)
      have "w + 1 \<le> i + 1" "i + 1 \<le> length ?arr" using "1.prems" lt by auto
      from "1.IH"(1) [OF lt refl True this call]
      have ih: "take w' arr' = take (w + 1) ?arr @ filter (\<lambda>n. selected (address n) = None) (drop (i + 1) ?arr)"
        "w + 1 \<le> w'" "length arr' = length arr"
        by auto
      have t: "take (Suc w) ?arr = take w arr @ [arr ! i]"
        using "1.prems" lt by (simp add: take_Suc_conv_app_nth)
      have d: "drop (Suc i) ?arr = drop (Suc i) arr"
        using "1.prems" by simp
      show ?thesis
        using ih True by (simp add: t d dr)
    next
      case False
      from "1.prems" lt False have call: "filter_loop selected arr (i + 1) w = (arr', w')"
        by (simp add: Let_def)
      have "w \<le> i + 1" "i + 1 \<le> length arr" using "1.prems" lt by auto
      from "1.IH"(2) [OF lt refl False this call] False
      show ?thesis by (simp add: dr)
    qed
  qed
qed

lemma selected_of_iff: "(selected_of bs a = None) = (a \<notin> set bs)"
proof -
  have "(fold (\<lambda>b m. m(b \<mapsto> ())) bs m0) a = None \<longleftrightarrow> (a \<notin> set bs \<and> m0 a = None)" for m0
    by (induction bs arbitrary: m0) auto
  then show ?thesis by (simp add: selected_of_def)
qed

text \<open>C7: with \<open>tried\<close> the addresses in \<open>RequestOptions.Backends\<close>, the filter returns
  the node list unchanged when \<open>tried\<close> is empty or when no node would be left; otherwise
  it returns the nodes whose address is not in \<open>tried\<close>, in their original order.\<close>

theorem retry_filter_fails_open:
  "retry_filter tried nodes =
     (if tried = [] \<or> filter (\<lambda>n. address n \<notin> set tried) nodes = [] then nodes
      else filter (\<lambda>n. address n \<notin> set tried) nodes)"
proof (cases "tried = []")
  case True
  then show ?thesis by (simp add: retry_filter_def)
next
  case False
  obtain arr w where fl: "filter_loop (selected_of tried) nodes 0 0 = (arr, w)"
    by (cases "filter_loop (selected_of tried) nodes 0 0")
  from filter_loop_inv [OF _ _ fl]
  have inv: "take w arr = filter (\<lambda>n. address n \<notin> set tried) nodes" "w = 0 \<longrightarrow> arr = nodes"
    "length arr = length nodes"
    by (simp_all add: selected_of_iff)
  show ?thesis
  proof (cases "filter (\<lambda>n. address n \<notin> set tried) nodes = []")
    case True
    with inv have "w = 0 \<or> arr = []" by simp
    moreover have "arr = [] \<Longrightarrow> nodes = []" using inv by auto
    ultimately show ?thesis
      using False True inv fl
      by (auto simp: retry_filter_def Let_def)
  next
    case f: False
    with inv have "take w arr \<noteq> []" by simp
    then show ?thesis
      using False f inv fl by (auto simp: retry_filter_def Let_def)
  qed
qed

theorem retry_filter_fails_open_witness:
  "retry_filter [''10.0.0.1:80'']
     [newNode ''10.0.0.1:80'' HTTP None Map.empty [] [] [],
      newNode ''10.0.0.2:80'' HTTP None Map.empty [] [] [],
      newNode ''10.0.0.1:80'' HTTP None Map.empty [] [] [],
      newNode ''10.0.0.3:80'' HTTP None Map.empty [] [] []]
   = [newNode ''10.0.0.2:80'' HTTP None Map.empty [] [] [],
      newNode ''10.0.0.3:80'' HTTP None Map.empty [] [] []]
   \<and> retry_filter [''10.0.0.1:80'']
         [newNode ''10.0.0.1:80'' HTTP None Map.empty [] [] []]
       = [newNode ''10.0.0.1:80'' HTTP None Map.empty [] [] []]"
  using retry_filter_fails_open [of "[''10.0.0.1:80'']"
      "[newNode ''10.0.0.1:80'' HTTP None Map.empty [] [] [],
        newNode ''10.0.0.2:80'' HTTP None Map.empty [] [] [],
        newNode ''10.0.0.1:80'' HTTP None Map.empty [] [] [],
        newNode ''10.0.0.3:80'' HTTP None Map.empty [] [] []]"]
    retry_filter_fails_open [of "[''10.0.0.1:80'']"
      "[newNode ''10.0.0.1:80'' HTTP None Map.empty [] [] []]"]
  by (simp add: newNode_def)

section \<open>Retry telemetry: properties\<close>

text \<open>C3 as stated does not hold: a retry attempt (\<open>i = 1\<close>) that ends in an error
  wrapping \<open>context.Canceled\<close> does reach the breaker; \<open>MarkFailed\<close> is called.\<close>

theorem markFailed_canceled_counterexample:
  "errors_Is (Wrap ''rpc aborted'' Canceled) Canceled
   \<and> MarkFailed_calls
        (markFailed 1 (Wrap ''rpc aborted'' Canceled)
           \<lparr>retry_state_true = 0, retry_state_false = 0, MarkSuccess_calls = 0, MarkFailed_calls = 0\<rparr>)
       = 1"
  by (simp add: markFailed_def markFailedStat_def)

text \<open>C3, amended: for a retry attempt with index \<open>i > 0\<close> that ends in an error caused
  by context cancellation, \<open>markFailed\<close> leaves both series of the retry-state metric
  as they were and calls the breaker's \<open>MarkFailed\<close> once. The cancellation guard sits in
  the metrics closure of \<open>splitRetryMetricsHandler\<close> only.\<close>

theorem markFailed_canceled:
  assumes "0 < i" and "errors_Is err Canceled"
  shows "markFailed i err t = t\<lparr>MarkFailed_calls := MarkFailed_calls t + 1\<rparr>"
  using assms by (simp add: markFailed_def markFailedStat_def)

theorem markFailed_canceled_witness:
  "(0::int) < 2 \<and> errors_Is (Wrap ''rpc aborted'' Canceled) Canceled
   \<and> markFailed 2 (Wrap ''rpc aborted'' Canceled)
        \<lparr>retry_state_true = 0, retry_state_false = 3, MarkSuccess_calls = 1, MarkFailed_calls = 4\<rparr>
     = \<lparr>retry_state_true = 0, retry_state_false = 3, MarkSuccess_calls = 1, MarkFailed_calls = 5\<rparr>"
  using markFailed_canceled [of 2 "Wrap ''rpc aborted'' Canceled"
      "\<lparr>retry_state_true = 0, retry_state_false = 3, MarkSuccess_calls = 1, MarkFailed_calls = 4\<rparr>"]
  by simp

section \<open>writeError: properties\<close>

text \<open>C6: \<open>writeError\<close> passes to \<open>WriteHeader\<close> the status 499 for a cancellation or
  client-disconnect error, 504 for any other error that is a deadline error, and 502 for
  every remaining error, and leaves the headers alone; for a GRPC endpoint it passes 200
  instead and sets \<open>Content-Type: application/grpc\<close>, \<open>Grpc-Message\<close> to the error
  text and \<open>Grpc-Status\<close> to the decimal of \<open>ToGRPCCode\<close> of that mapped status.\<close>

theorem writeError_status:
  "(proto = HTTP \<and> (errors_Is err Canceled \<or> Error err = ''client disconnected'')
      \<longrightarrow> WriteHeader_calls (writeError G w err (Protocol_String proto)) = WriteHeader_calls w @ [499])
   \<and> (proto = HTTP \<and> \<not> (errors_Is err Canceled \<or> Error err = ''client disconnected'')
        \<and> errors_Is err DeadlineExceeded
      \<longrightarrow> WriteHeader_calls (writeError G w err (Protocol_String proto)) = WriteHeader_calls w @ [504])
   \<and> (proto = HTTP \<and> \<not> (errors_Is err Canceled \<or> Error err = ''client disconnected'')
        \<and> \<not> errors_Is err DeadlineExceeded
      \<longrightarrow> WriteHeader_calls (writeError G w err (Protocol_String proto)) = WriteHeader_calls w @ [502])
   \<and> (proto = HTTP \<longrightarrow> rw_Header (writeError G w err (Protocol_String proto)) = rw_Header w)
   \<and> (proto = GRPC \<longrightarrow>
        WriteHeader_calls (writeError G w err (Protocol_String proto)) = WriteHeader_calls w @ [200]
        \<and> rw_Header (writeError G w err (Protocol_String proto)) ''Content-Type''
            = Some [''application/grpc'']
        \<and> rw_Header (writeError G w err (Protocol_String proto)) ''Grpc-Message'' = Some [Error err]
        \<and> rw_Header (writeError G w err (Protocol_String proto)) ''Grpc-Status''
            = Some [Itoa (G (if errors_Is err Canceled \<or> Error err = ''client disconnected'' then 499
                             else if errors_Is err DeadlineExceeded then 504 else 502))])"
  by (cases proto)
     (simp_all add: writeError_def WriteHeader_def requestsTotalIncr_def Header_Set_def Let_def)

theorem writeError_status_witness:
  "WriteHeader_calls
     (writeError (\<lambda>c. if c = 499 then 1 else if c = 504 then 4 else 2)
        \<lparr>rw_Header = Map.empty, WriteHeader_calls = [], requests_code_total = []\<rparr>
        (Wrap ''round trip'' Canceled) (Protocol_String HTTP)) = [499]
   \<and> WriteHeader_calls
     (writeError (\<lambda>c. if c = 499 then 1 else if c = 504 then 4 else 2)
        \<lparr>rw_Header = Map.empty, WriteHeader_calls = [], requests_code_total = []\<rparr>
        (Plain ''client disconnected'') (Protocol_String HTTP)) = [499]
   \<and> WriteHeader_calls
     (writeError (\<lambda>c. if c = 499 then 1 else if c = 504 then 4 else 2)
        \<lparr>rw_Header = Map.empty, WriteHeader_calls = [], requests_code_total = []\<rparr>
        DeadlineExceeded (Protocol_String HTTP)) = [504]
   \<and> WriteHeader_calls
     (writeError (\<lambda>c. if c = 499 then 1 else if c = 504 then 4 else 2)
        \<lparr>rw_Header = Map.empty, WriteHeader_calls = [], requests_code_total = []\<rparr>
        (Plain ''dial tcp: connection refused'') (Protocol_String HTTP)) = [502]
   \<and> WriteHeader_calls
     (writeError (\<lambda>c. if c = 499 then 1 else if c = 504 then 4 else 2)
        \<lparr>rw_Header = Map.empty, WriteHeader_calls = [], requests_code_total = []\<rparr>
        DeadlineExceeded (Protocol_String GRPC)) = [200]
   \<and> rw_Header
     (writeError (\<lambda>c. if c = 499 then 1 else if c = 504 then 4 else 2)
        \<lparr>rw_Header = Map.empty, WriteHeader_calls = [], requests_code_total = []\<rparr>
        DeadlineExceeded (Protocol_String GRPC)) ''Grpc-Status'' = Some [''4'']
   \<and> rw_Header
     (writeError (\<lambda>c. if c = 499 then 1 else if c = 504 then 4 else 2)
        \<lparr>rw_Header = Map.empty, WriteHeader_calls = [], requests_code_total = []\<rparr>
        DeadlineExceeded (Protocol_String GRPC)) ''Grpc-Message'' = Some [''context deadline exceeded'']"
  using
    writeError_status [of HTTP "Wrap ''round trip'' Canceled"
      "\<lambda>c. if c = 499 then 1 else if c = 504 then 4 else 2"
      "\<lparr>rw_Header = Map.empty, WriteHeader_calls = [], requests_code_total = []\<rparr>"]
    writeError_status [of HTTP "Plain ''client disconnected''"
      "\<lambda>c. if c = 499 then 1 else if c = 504 then 4 else 2"
      "\<lparr>rw_Header = Map.empty, WriteHeader_calls = [], requests_code_total = []\<rparr>"]
    writeError_status [of HTTP DeadlineExceeded
      "\<lambda>c. if c = 499 then 1 else if c = 504 then 4 else 2"
      "\<lparr>rw_Header = Map.empty, WriteHeader_calls = [], requests_code_total = []\<rparr>"]
    writeError_status [of HTTP "Plain ''dial tcp: connection refused''"
      "\<lambda>c. if c = 499 then 1 else if c = 504 then 4 else 2"
      "\<lparr>rw_Header = Map.empty, WriteHeader_calls = [], requests_code_total = []\<rparr>"]
    writeError_status [of GRPC DeadlineExceeded
      "\<lambda>c. if c = 499 then 1 else if c = 504 then 4 else 2"
      "\<lparr>rw_Header = Map.empty, WriteHeader_calls = [], requests_code_total = []\<rparr>"]
  by (simp add: Itoa_def)

section \<open>Node applier and watcher: properties\<close>

lemma newNode_WithTLS_False: "tls (newNode addr proto w md ver nm [WithTLS False]) = False"
  by (simp add: newNode_def WithTLS_def Let_def)

lemma Callback_nodes_append:
  "Callback_nodes up pi proto (xs @ ys) = Callback_nodes up pi proto xs @ Callback_nodes up pi proto ys"
  by (induction xs) (auto split: sum.splits)

lemma Callback_nodes_tls: "n \<in> set (Callback_nodes up pi proto services) \<Longrightarrow> tls n = False"
  by (induction services) (auto simp: newNode_WithTLS_False split: sum.splits if_splits)

lemma parseEndpoint_all_secure:
  assumes "\<forall>e \<in> set eps. \<forall>u. up e = Inr u \<and> Scheme u = scheme \<longrightarrow> IsSecure u"
  shows "case parseEndpoint up eps scheme False of Inl err \<Rightarrow> True | Inr addr \<Rightarrow> addr = []"
  using assms by (induction eps) (auto split: sum.splits)

text \<open>C9: when \<open>Callback\<close> applies a node set, it is the list built by its loop; every
  node of that list has \<open>tls = False\<close>; and an instance whose endpoints of the
  endpoint's scheme all carry \<open>isSecure=true\<close> resolves to no address and contributes
  no node, wherever it stands in the notification.\<close>

theorem Callback_nodes_never_tls:
  "(\<not> canceled na \<and> services \<noteq> [] \<longrightarrow>
      picker (snd (Callback up pi services na))
        = Callback_nodes up pi (endpoint_Protocol na) services)
   \<and> (\<forall>n \<in> set (Callback_nodes up pi proto services). tls n = False)
   \<and> ((\<forall>e \<in> set (Endpoints ser). \<forall>u.
          up e = Inr u \<and> Scheme u = strings_ToLower (Protocol_String proto) \<longrightarrow> IsSecure u)
       \<longrightarrow> (case parseEndpoint up (Endpoints ser) (strings_ToLower (Protocol_String proto)) False of
              Inl err \<Rightarrow> True | Inr addr \<Rightarrow> addr = [])
         \<and> Callback_nodes up pi proto (before @ ser # after)
             = Callback_nodes up pi proto (before @ after))"
proof (intro conjI impI)
  assume "\<not> canceled na \<and> services \<noteq> []"
  then show "picker (snd (Callback up pi services na))
        = Callback_nodes up pi (endpoint_Protocol na) services"
    by (simp add: Callback_def picker_Apply_def)
next
  show "\<forall>n \<in> set (Callback_nodes up pi proto services). tls n = False"
    using Callback_nodes_tls by blast
next
  assume a: "\<forall>e \<in> set (Endpoints ser). \<forall>u.
          up e = Inr u \<and> Scheme u = strings_ToLower (Protocol_String proto) \<longrightarrow> IsSecure u"
  from parseEndpoint_all_secure [OF a]
  show p: "case parseEndpoint up (Endpoints ser) (strings_ToLower (Protocol_String proto)) False of
              Inl err \<Rightarrow> True | Inr addr \<Rightarrow> addr = []" .
  then have "Callback_nodes up pi proto [ser] = []"
    by (auto split: sum.splits)
  then show "Callback_nodes up pi proto (before @ ser # after)
             = Callback_nodes up pi proto (before @ after)"
    using Callback_nodes_append [of up pi proto before "[ser] @ after"]
      Callback_nodes_append [of up pi proto "[ser]" after]
      Callback_nodes_append [of up pi proto before after]
    by simp
qed

theorem Callback_nodes_never_tls_witness:
  "IsSecure \<lparr>Scheme = ''grpc'', Host = ''10.0.0.5:9000'', Query_isSecure = ''true''\<rparr>
   \<and> picker (snd (Callback
        (\<lambda>s. if s = ''grpc://10.0.0.5:9000?isSecure=true''
              then Inr \<lparr>Scheme = ''grpc'', Host = ''10.0.0.5:9000'', Query_isSecure = ''true''\<rparr>
              else if s = ''http://10.0.0.5:8000''
              then Inr \<lparr>Scheme = ''http'', Host = ''10.0.0.5:8000'', Query_isSecure = []\<rparr>
              else if s = ''grpc://10.0.0.6:9000''
              then Inr \<lparr>Scheme = ''grpc'', Host = ''10.0.0.6:9000'', Query_isSecure = []\<rparr>
              else Inl (Plain ''parse error''))
        (\<lambda>s. 0)
        [\<lparr>ID = ''a'', Name = ''svc'', Version = ''v1'', Metadata = Map.empty,
          Endpoints = [''grpc://10.0.0.5:9000?isSecure=true'', ''http://10.0.0.5:8000'']\<rparr>,
         \<lparr>ID = ''b'', Name = ''svc'', Version = ''v1'', Metadata = Map.empty,
          Endpoints = [''grpc://10.0.0.6:9000'']\<rparr>]
        \<lparr>canceled = False, endpoint_Protocol = GRPC, picker = [], Apply_calls = 0\<rparr>))
     = [\<lparr>address = ''10.0.0.6:9000'', name = ''svc'', weight = Some 10, version = ''v1'',
         metadata = Map.empty, client = globalH2CClient, protocol = GRPC, tls = False\<rparr>]"
  using Callback_nodes_never_tls
    [of "\<lparr>canceled = False, endpoint_Protocol = GRPC, picker = [], Apply_calls = 0\<rparr>"
        "[\<lparr>ID = ''a'', Name = ''svc'', Version = ''v1'', Metadata = Map.empty,
          Endpoints = [''grpc://10.0.0.5:9000?isSecure=true'', ''http://10.0.0.5:8000'']\<rparr>,
         \<lparr>ID = ''b'', Name = ''svc'', Version = ''v1'', Metadata = Map.empty,
          Endpoints = [''grpc://10.0.0.6:9000'']\<rparr>]"
        "(\<lambda>s. if s = ''grpc://10.0.0.5:9000?isSecure=true''
              then Inr \<lparr>Scheme = ''grpc'', Host = ''10.0.0.5:9000'', Query_isSecure = ''true''\<rparr>
              else if s = ''http://10.0.0.5:8000''
              then Inr \<lparr>Scheme = ''http'', Host = ''10.0.0.5:8000'', Query_isSecure = []\<rparr>
              else if s = ''grpc://10.0.0.6:9000''
              then Inr \<lparr>Scheme = ''grpc'', Host = ''10.0.0.6:9000'', Query_isSecure = []\<rparr>
              else Inl (Plain ''parse error''))"
        "\<lambda>s. 0" GRPC
        "\<lparr>ID = ''a'', Name = ''svc'', Version = ''v1'', Metadata = Map.empty,
          Endpoints = [''grpc://10.0.0.5:9000?isSecure=true'', ''http://10.0.0.5:8000'']\<rparr>"
        "[]"
        "[\<lparr>ID = ''b'', Name = ''svc'', Version = ''v1'', Metadata = Map.empty,
          Endpoints = [''grpc://10.0.0.6:9000'']\<rparr>]"]
  by (simp add: IsSecure_def ParseBool_def strings_ToLower_def newNode_def WithTLS_def
        nodeWeight_def defaultWeight_def Let_def)

lemma watch_loop_skips_empty:
  "watch_loop up pi endpoint (before @ Inr [] # after) s
     = watch_loop up pi endpoint (before @ after) s"
proof (induction before arbitrary: s)
  case Nil
  show ?case by (simp add: watch_iteration_def)
next
  case (Cons x before)
  obtain ctl s' where it: "watch_iteration up pi endpoint x s = (ctl, s')"
    by (cases "watch_iteration up pi endpoint x s")
  show ?case
    using Cons.IH [of s'] it by (cases ctl) simp_all
qed

text \<open>C10: on an empty instance list \<open>Callback\<close> leaves the applier as it is (no
  \<open>picker.Apply\<close>, the applied nodes stay); an iteration of the watcher's update loop
  that receives an empty list changes neither the cache nor any applier; and so a run of
  the loop ends in the same watcher state with or without an empty notification in it.\<close>

theorem empty_notification_no_effect:
  "snd (Callback up pi [] na) = na
   \<and> watch_iteration up pi endpoint (Inr []) s = (Continue, s)
   \<and> watch_loop up pi endpoint (before @ Inr [] # after) s
       = watch_loop up pi endpoint (before @ after) s"
proof (intro conjI)
  show "snd (Callback up pi [] na) = na"
    by (simp add: Callback_def)
  show "watch_iteration up pi endpoint (Inr []) s = (Continue, s)"
    by (simp add: watch_iteration_def)
  show "watch_loop up pi endpoint (before @ Inr [] # after) s
       = watch_loop up pi endpoint (before @ after) s"
    by (rule watch_loop_skips_empty)
qed

theorem empty_notification_no_effect_witness:
  "snd (Callback (\<lambda>s. Inl (Plain ''parse error'')) (\<lambda>s. 0) []
          \<lparr>canceled = False, endpoint_Protocol = HTTP,
           picker = [newNode ''10.0.0.1:80'' HTTP None Map.empty [] [] []], Apply_calls = 1\<rparr>)
     = \<lparr>canceled = False, endpoint_Protocol = HTTP,
        picker = [newNode ''10.0.0.1:80'' HTTP None Map.empty [] [] []], Apply_calls = 1\<rparr>
   \<and> watch_iteration (\<lambda>s. Inl (Plain ''parse error'')) (\<lambda>s. 0) ''svc'' (Inr [])
         \<lparr>selectedInstances = Map.empty,
          appliers = [''svc'' \<mapsto> [(''id1'',
             \<lparr>canceled = False, endpoint_Protocol = HTTP,
              picker = [newNode ''10.0.0.1:80'' HTTP None Map.empty [] [] []], Apply_calls = 1\<rparr>)]]\<rparr>
     = (Continue,
         \<lparr>selectedInstances = Map.empty,
          appliers = [''svc'' \<mapsto> [(''id1'',
             \<lparr>canceled = False, endpoint_Protocol = HTTP,
              picker = [newNode ''10.0.0.1:80'' HTTP None Map.empty [] [] []], Apply_calls = 1\<rparr>)]]\<rparr>)
   \<and> watch_loop (\<lambda>s. Inl (Plain ''parse error'')) (\<lambda>s. 0) ''svc''
         ([Inl (Plain ''watch failed'')] @ Inr [] # [Inl Canceled])
         \<lparr>selectedInstances = Map.empty,
          appliers = [''svc'' \<mapsto> [(''id1'',
             \<lparr>canceled = False, endpoint_Protocol = HTTP,
              picker = [newNode ''10.0.0.1:80'' HTTP None Map.empty [] [] []], Apply_calls = 1\<rparr>)]]\<rparr>
     = \<lparr>selectedInstances = Map.empty,
          appliers = [''svc'' \<mapsto> [(''id1'',
             \<lparr>canceled = False, endpoint_Protocol = HTTP,
              picker = [newNode ''10.0.0.1:80'' HTTP None Map.empty [] [] []], Apply_calls = 1\<rparr>)]]\<rparr>"
  using empty_notification_no_effect
    [where up = "\<lambda>s. Inl (Plain ''parse error'')" and pi = "\<lambda>s. 0"
       and na = "\<lparr>canceled = False, endpoint_Protocol = HTTP,
           picker = [newNode ''10.0.0.1:80'' HTTP None Map.empty [] [] []], Apply_calls = 1\<rparr>"
       and endpoint = "''svc''"
       and s = "\<lparr>selectedInstances = Map.empty,
          appliers = [''svc'' \<mapsto> [(''id1'',
             \<lparr>canceled = False, endpoint_Protocol = HTTP,
              picker = [newNode ''10.0.0.1:80'' HTTP None Map.empty [] [] []], Apply_calls = 1\<rparr>)]]\<rparr>"
       and before = "[Inl (Plain ''watch failed'')]" and after = "[Inl Canceled]"]
  by (simp add: watch_iteration_def)

section \<open>Hot reload: properties\<close>

lemma run_deferred_Some: "run_deferred d (Some err) log = log @ d"
  by (induction d arbitrary: log) (simp_all add: closeOnError_def)

lemma run_deferred_None: "run_deferred d None log = log"
  by (induction d arbitrary: log) (simp_all add: closeOnError_def)

lemma buildEndpoint_log:
  "buildEndpoint cs e ms log = (res, log') \<Longrightarrow>
     fst (buildEndpoint cs e ms []) = res
     \<and> (case res of
          Inl err \<Rightarrow> log' = log @ created_closers cs e
        | Inr (h, cl) \<Rightarrow> log' = log \<and> created_closers cs e = [cl] \<and> h_endpoint h = e)"
  by (auto simp: buildEndpoint_def created_closers_def closeOnError_def Let_def
        split: sum.splits)

lemma Router_Handle_result:
  "Router_Handle cs pattern method host h cl r = (res, r') \<Longrightarrow>
     route_GetError cs pattern method host = res
     \<and> map route_endpoint (routes r') = map route_endpoint (routes r) @ [Some (h_endpoint h)]
     \<and> (res = None \<longrightarrow> allCloser r' = allCloser r @ [cl])"
  by (auto simp: Router_Handle_def route_endpoint_def Let_def split: option.splits)

lemma Update_loop_result:
  "Update_loop cs ms es r d log = (res, r', d', log') \<Longrightarrow>
     (res = None \<longrightarrow>
        (\<forall>e \<in> set es. endpoint_builds cs ms e)
        \<and> d' = rev (concat (map (created_closers cs) es)) @ d
        \<and> log' = log
        \<and> map route_endpoint (routes r') = map route_endpoint (routes r) @ map Some es
        \<and> allCloser r' = allCloser r @ concat (map (created_closers cs) es))
   \<and> (res \<noteq> None \<longrightarrow>
        (\<exists>pre e post. es = pre @ e # post
           \<and> (\<forall>x \<in> set pre. endpoint_builds cs ms x)
           \<and> \<not> endpoint_builds cs ms e
           \<and> log' @ d' = log @ rev (concat (map (created_closers cs) (pre @ [e]))) @ d))"
proof (induction es arbitrary: r d log)
  case Nil
  then show ?case by simp
next
  case (Cons e es)
  obtain bres blog where b: "buildEndpoint cs e ms log = (bres, blog)"
    by (cases "buildEndpoint cs e ms log")
  note bl = buildEndpoint_log [OF b]
  show ?case
  proof (cases bres)
    case (Inl err)
    with Cons.prems b have res: "res = Some err" "r' = r" "d' = d" "log' = blog"
      by simp_all
    from bl Inl have nb: "\<not> endpoint_builds cs ms e" and lg: "blog = log @ created_closers cs e"
      by (simp_all add: endpoint_builds_def)
    have "e # es = [] @ e # es \<and> (\<forall>x \<in> set []. endpoint_builds cs ms x)
           \<and> \<not> endpoint_builds cs ms e
           \<and> log' @ d' = log @ rev (concat (map (created_closers cs) ([] @ [e]))) @ d"
      using nb lg res by (simp add: created_closers_def split: sum.splits)
    then show ?thesis using res by blast
  next
    case (Inr hc)
    obtain h cl where hc: "hc = (h, cl)" by (cases hc)
    from bl Inr hc have lg: "blog = log" and cr: "created_closers cs e = [cl]"
      and he: "h_endpoint h = e" and bf: "fst (buildEndpoint cs e ms []) = Inr (h, cl)"
      by simp_all
    obtain hres hr where hd: "Router_Handle cs (Path e) (Method e) (ep_Host e) h cl r = (hres, hr)"
      by (cases "Router_Handle cs (Path e) (Method e) (ep_Host e) h cl r")
    note rh = Router_Handle_result [OF hd]
    show ?thesis
    proof (cases hres)
      case (Some err)
      with Cons.prems b Inr hc hd have res: "res = Some err" "d' = cl # d" "log' = blog"
        by simp_all
      from rh Some bf have nb: "\<not> endpoint_builds cs ms e"
        by (simp add: endpoint_builds_def)
      have "e # es = [] @ e # es \<and> (\<forall>x \<in> set []. endpoint_builds cs ms x)
           \<and> \<not> endpoint_builds cs ms e
           \<and> log' @ d' = log @ rev (concat (map (created_closers cs) ([] @ [e]))) @ d"
        using nb lg res cr by simp
      then show ?thesis using res by blast
    next
      case None
      with Cons.prems b Inr hc hd
      have call: "Update_loop cs ms es hr (cl # d) blog = (res, r', d', log')"
        by simp
      from rh None bf have ok: "endpoint_builds cs ms e"
        by (simp add: endpoint_builds_def)
      note ih = Cons.IH [OF call]
      show ?thesis
      proof (cases res)
        case n: None
        with ih ok lg cr rh he None show ?thesis by simp
      next
        case (Some err)
        with ih obtain pre x post where p: "es = pre @ x # post"
          "\<forall>y \<in> set pre. endpoint_builds cs ms y" "\<not> endpoint_builds cs ms x"
          "log' @ d' = blog @ rev (concat (map (created_closers cs) (pre @ [x]))) @ cl # d"
          by auto
        have "e # es = (e # pre) @ x # post \<and> (\<forall>y \<in> set (e # pre). endpoint_builds cs ms y)
           \<and> \<not> endpoint_builds cs ms x
           \<and> log' @ d' = log @ rev (concat (map (created_closers cs) ((e # pre) @ [x]))) @ d"
          using p ok lg cr by simp
        then show ?thesis using Some by blast
      qed
    qed
  qed
qed

text \<open>C1: \<open>Update\<close> either fails or succeeds as a whole. When it returns an error, the
  router that \<open>ServeHTTP\<close> loads is the one installed before, no router is handed to
  \<open>tryCloseRouter\<close>, the configured endpoints split into endpoints that built and
  registered, followed by one that did not, and \<open>Close()\<close> has been called once on each
  client made in this call (the last made first), that of the failing endpoint included.
  When it returns no error, every configured endpoint built and registered, the new
  router (the metrics route, then one route per endpoint, with their closers) is the one
  \<open>ServeHTTP\<close> loads, the old router went to \<open>tryCloseRouter\<close>, and \<open>Update\<close>
  itself has closed no client.\<close>

theorem Update_atomic:
  "case Update cs c p of
     (Some err, p') \<Rightarrow>
        ServeHTTP_router p' = ServeHTTP_router p
      \<and> tryCloseRouter_calls p' = tryCloseRouter_calls p
      \<and> (\<exists>pre e post. gw_Endpoints c = pre @ e # post
            \<and> (\<forall>x \<in> set pre. endpoint_builds cs (gw_Middlewares c) x)
            \<and> \<not> endpoint_builds cs (gw_Middlewares c) e
            \<and> Close_calls p'
                = Close_calls p @ rev (concat (map (created_closers cs) (pre @ [e]))))
   | (None, p') \<Rightarrow>
        (\<forall>e \<in> set (gw_Endpoints c). endpoint_builds cs (gw_Middlewares c) e)
      \<and> map route_endpoint (routes (ServeHTTP_router p')) = None # map Some (gw_Endpoints c)
      \<and> allCloser (ServeHTTP_router p') = concat (map (created_closers cs) (gw_Endpoints c))
      \<and> tryCloseRouter_calls p' = tryCloseRouter_calls p @ [router p]
      \<and> Close_calls p' = Close_calls p"
proof -
  obtain res r' d' log' where
    ul: "Update_loop cs (gw_Middlewares c) (gw_Endpoints c) NewRouter [] (Close_calls p)
           = (res, r', d', log')"
    by (cases "Update_loop cs (gw_Middlewares c) (gw_Endpoints c) NewRouter [] (Close_calls p)")
  note inv = Update_loop_result [OF ul]
  show ?thesis
  proof (cases res)
    case None
    with inv ul show ?thesis
      by (simp add: Update_def ServeHTTP_router_def run_deferred_None NewRouter_def
            route_endpoint_def)
  next
    case (Some err)
    with inv obtain pre e post where p: "gw_Endpoints c = pre @ e # post"
      "\<forall>x \<in> set pre. endpoint_builds cs (gw_Middlewares c) x"
      "\<not> endpoint_builds cs (gw_Middlewares c) e"
      "log' @ d' = Close_calls p @ rev (concat (map (created_closers cs) (pre @ [e])))"
      by auto
    have u: "Update cs c p = (Some err, p\<lparr>Close_calls := log' @ d'\<rparr>)"
      using ul Some by (simp add: Update_def run_deferred_Some)
    show ?thesis
      unfolding u using p by (auto simp: ServeHTTP_router_def)
  qed
qed

theorem Update_atomic_witness:
  "fst (Update
     \<lparr>clientFactory = (\<lambda>e. if Path e = ''/a'' then Inr 11 else if Path e = ''/b'' then Inr 12
                             else Inl (Plain ''unknown scheme'')),
      middlewareFactory = (\<lambda>m. if mw_Name m = ''auth'' then Inl (Plain ''bad options'')
                                 else Inl ErrNotFound),
      ParseConditon = (\<lambda>c. Inr c),
      route_GetError = (\<lambda>pattern method host. None)\<rparr>
     \<lparr>gw_Endpoints =
        [\<lparr>Path = ''/a'', Method = ''GET'', ep_Host = [], ep_Protocol = HTTP, Timeout = None,
          ep_Retry = None, Middlewares = []\<rparr>,
         \<lparr>Path = ''/b'', Method = ''GET'', ep_Host = [], ep_Protocol = HTTP, Timeout = None,
          ep_Retry = None, Middlewares = [\<lparr>mw_Name = ''auth'', mw_Required = True\<rparr>]\<rparr>],
      gw_Middlewares = [\<lparr>mw_Name = ''logging'', mw_Required = False\<rparr>]\<rparr>
     \<lparr>router = NewRouter, tryCloseRouter_calls = [], Close_calls = []\<rparr>)
   = Some (Plain ''bad options'')
   \<and> snd (Update
     \<lparr>clientFactory = (\<lambda>e. if Path e = ''/a'' then Inr 11 else if Path e = ''/b'' then Inr 12
                             else Inl (Plain ''unknown scheme'')),
      middlewareFactory = (\<lambda>m. if mw_Name m = ''auth'' then Inl (Plain ''bad options'')
                                 else Inl ErrNotFound),
      ParseConditon = (\<lambda>c. Inr c),
      route_GetError = (\<lambda>pattern method host. None)\<rparr>
     \<lparr>gw_Endpoints =
        [\<lparr>Path = ''/a'', Method = ''GET'', ep_Host = [], ep_Protocol = HTTP, Timeout = None,
          ep_Retry = None, Middlewares = []\<rparr>,
         \<lparr>Path = ''/b'', Method = ''GET'', ep_Host = [], ep_Protocol = HTTP, Timeout = None,
          ep_Retry = None, Middlewares = [\<lparr>mw_Name = ''auth'', mw_Required = True\<rparr>]\<rparr>],
      gw_Middlewares = [\<lparr>mw_Name = ''logging'', mw_Required = False\<rparr>]\<rparr>
     \<lparr>router = NewRouter, tryCloseRouter_calls = [], Close_calls = []\<rparr>)
   = \<lparr>router = NewRouter, tryCloseRouter_calls = [], Close_calls = [12, 11]\<rparr>
   \<and> fst (Update
     \<lparr>clientFactory = (\<lambda>e. if Path e = ''/a'' then Inr 11 else if Path e = ''/b'' then Inr 12
                             else Inl (Plain ''unknown scheme'')),
      middlewareFactory = (\<lambda>m. if mw_Name m = ''auth'' then Inl (Plain ''bad options'')
                                 else Inl ErrNotFound),
      ParseConditon = (\<lambda>c. Inr c),
      route_GetError = (\<lambda>pattern method host. None)\<rparr>
     \<lparr>gw_Endpoints =
        [\<lparr>Path = ''/a'', Method = ''GET'', ep_Host = [], ep_Protocol = HTTP, Timeout = None,
          ep_Retry = None, Middlewares = []\<rparr>],
      gw_Middlewares = [\<lparr>mw_Name = ''logging'', mw_Required = False\<rparr>]\<rparr>
     \<lparr>router = NewRouter, tryCloseRouter_calls = [], Close_calls = []\<rparr>)
   = None
   \<and> allCloser (router (snd (Update
     \<lparr>clientFactory = (\<lambda>e. if Path e = ''/a'' then Inr 11 else if Path e = ''/b'' then Inr 12
                             else Inl (Plain ''unknown scheme'')),
      middlewareFactory = (\<lambda>m. if mw_Name m = ''auth'' then Inl (Plain ''bad options'')
                                 else Inl ErrNotFound),
      ParseConditon = (\<lambda>c. Inr c),
      route_GetError = (\<lambda>pattern method host. None)\<rparr>
     \<lparr>gw_Endpoints =
        [\<lparr>Path = ''/a'', Method = ''GET'', ep_Host = [], ep_Protocol = HTTP, Timeout = None,
          ep_Retry = None, Middlewares = []\<rparr>],
      gw_Middlewares = [\<lparr>mw_Name = ''logging'', mw_Required = False\<rparr>]\<rparr>
     \<lparr>router = NewRouter, tryCloseRouter_calls = [], Close_calls = []\<rparr>)))
   = [11]"
  using
    Update_atomic [where cs =
     "\<lparr>clientFactory = (\<lambda>e. if Path e = ''/a'' then Inr 11 else if Path e = ''/b'' then Inr 12
                             else Inl (Plain ''unknown scheme'')),
      middlewareFactory = (\<lambda>m. if mw_Name m = ''auth'' then Inl (Plain ''bad options'')
                                 else Inl ErrNotFound),
      ParseConditon = (\<lambda>c. Inr c),
      route_GetError = (\<lambda>pattern method host. None)\<rparr>"
     and c =
     "\<lparr>gw_Endpoints =
        [\<lparr>Path = ''/a'', Method = ''GET'', ep_Host = [], ep_Protocol = HTTP, Timeout = None,
          ep_Retry = None, Middlewares = []\<rparr>,
         \<lparr>Path = ''/b'', Method = ''GET'', ep_Host = [], ep_Protocol = HTTP, Timeout = None,
          ep_Retry = None, Middlewares = [\<lparr>mw_Name = ''auth'', mw_Required = True\<rparr>]\<rparr>],
      gw_Middlewares = [\<lparr>mw_Name = ''logging'', mw_Required = False\<rparr>]\<rparr>"
     and p =
     "\<lparr>router = NewRouter, tryCloseRouter_calls = [], Close_calls = []\<rparr>"]
    Update_atomic [where cs =
     "\<lparr>clientFactory = (\<lambda>e. if Path e = ''/a'' then Inr 11 else if Path e = ''/b'' then Inr 12
                             else Inl (Plain ''unknown scheme'')),
      middlewareFactory = (\<lambda>m. if mw_Name m = ''auth'' then Inl (Plain ''bad options'')
                                 else Inl ErrNotFound),
      ParseConditon = (\<lambda>c. Inr c),
      route_GetError = (\<lambda>pattern method host. None)\<rparr>"
     and c =
     "\<lparr>gw_Endpoints =
        [\<lparr>Path = ''/a'', Method = ''GET'', ep_Host = [], ep_Protocol = HTTP, Timeout = None,
          ep_Retry = None, Middlewares = []\<rparr>],
      gw_Middlewares = [\<lparr>mw_Name = ''logging'', mw_Required = False\<rparr>]\<rparr>"
     and p =
     "\<lparr>router = NewRouter, tryCloseRouter_calls = [], Close_calls = []\<rparr>"]
  by (simp add: Update_def buildEndpoint_def buildMiddleware_def prepareRetryStrategy_def
        parseRetryConditon_def closeOnError_def Router_Handle_def NewRouter_def Let_def)

section \<open>Endpoint handler: the done callbacks of a request\<close>

lemma logs_ok_irrelevant:
  "selector_logs_ok world i (st\<lparr>hs_err := e\<rparr>) = selector_logs_ok world i st"
  "selector_logs_ok world i (st\<lparr>hs_telemetry := t\<rparr>) = selector_logs_ok world i st"
  "selector_logs_ok world i (st\<lparr>hs_reqOpts := (hs_reqOpts st)\<lparr>LastAttempt := b\<rparr>\<rparr>)
     = selector_logs_ok world i st"
  by (simp_all add: selector_logs_ok_def)

lemma logs_ok_mono:
  "selector_logs_ok world i st \<Longrightarrow> i \<le> i' \<Longrightarrow> selector_logs_ok world i' st"
  unfolding selector_logs_ok_def by force

lemma logs_ok_drop_resp:
  "selector_logs_ok world i st \<Longrightarrow> selector_logs_ok world i (st\<lparr>hs_resp := None\<rparr>)"
  unfolding selector_logs_ok_def by simp

lemma client_RoundTrip_select_error:
  assumes "selector_Select world i = Inl e"
  shows "client_RoundTrip world i st = (Inl e, st)"
  using assms by (simp add: client_RoundTrip_def)

lemma client_RoundTrip_do_error:
  assumes "selector_Select world i = Inr n" and "client_Do world i = Inl e"
  shows "\<exists>st'. client_RoundTrip world i st = (Inl e, st')
           \<and> hs_selected st' = hs_selected st @ [(i, n)]
           \<and> hs_done_calls st' = hs_done_calls st @ [(i, address n, DoneInfo_Err e)]
           \<and> DoneFunc (hs_reqOpts st') = DoneFunc (hs_reqOpts st)
           \<and> hs_resp st' = hs_resp st"
  using assms by (simp add: client_RoundTrip_def call_DoneFunc_def Let_def)

lemma client_RoundTrip_response:
  assumes "selector_Select world i = Inr n" and "client_Do world i = Inr r"
  shows "\<exists>st'. client_RoundTrip world i st = (Inr r, st')
           \<and> hs_selected st' = hs_selected st @ [(i, n)]
           \<and> hs_done_calls st' = hs_done_calls st
           \<and> DoneFunc (hs_reqOpts st') = selector_done i (address n)
           \<and> hs_resp st' = hs_resp st"
  using assms by (simp add: client_RoundTrip_def call_DoneFunc_def Let_def)

lemma client_RoundTrip_logs:
  assumes ok: "selector_logs_ok world i st" and rt: "client_RoundTrip world i st = (res, st')"
  shows "case res of
           Inl e \<Rightarrow> selector_logs_ok world (i + 1) (st'\<lparr>hs_resp := None\<rparr>)
         | Inr r \<Rightarrow> selector_logs_ok world (i + 1) (st'\<lparr>hs_resp := Some r\<rparr>)"
proof (cases "selector_Select world i")
  case (Inl e)
  with rt client_RoundTrip_select_error [OF Inl, of st] have "res = Inl e" "st' = st" by simp_all
  then show ?thesis
    using logs_ok_drop_resp [OF logs_ok_mono [OF ok, of "i + 1"]] by simp
next
  case (Inr n)
  from ok have
    d1: "distinct (map fst (hs_selected st))" and
    b1: "\<forall>j \<in> fst ` set (hs_selected st). j < i" and
    d2: "distinct (map fst (hs_done_calls st))" and
    c1: "\<forall>c \<in> set (hs_done_calls st).
            \<exists>n e. (fst c, n) \<in> set (hs_selected st) \<and> fst (snd c) = address n
                  \<and> client_Do world (fst c) = Inl e \<and> snd (snd c) = DoneInfo_Err e" and
    c2: "\<forall>s \<in> set (hs_selected st). \<forall>e.
            client_Do world (fst s) = Inl e
              \<longrightarrow> (fst s, address (snd s), DoneInfo_Err e) \<in> set (hs_done_calls st)"
    unfolding selector_logs_ok_def by blast+
  have fresh: "i \<notin> fst ` set (hs_selected st)" using b1 by auto
  have fresh2: "i \<notin> fst ` set (hs_done_calls st)"
  proof
    assume "i \<in> fst ` set (hs_done_calls st)"
    then obtain c where "c \<in> set (hs_done_calls st)" "fst c = i" by auto
    with c1 obtain m where "(i, m) \<in> set (hs_selected st)" by blast
    then have "i \<in> fst ` set (hs_selected st)" by force
    with fresh show False by blast
  qed
  show ?thesis
  proof (cases "client_Do world i")
    case e: (Inl e)
    from client_RoundTrip_do_error [OF Inr e, of st] rt
    have res: "res = Inl e" and
      s: "hs_selected st' = hs_selected st @ [(i, n)]"
         "hs_done_calls st' = hs_done_calls st @ [(i, address n, DoneInfo_Err e)]"
      by auto
    have p1: "distinct (map fst (hs_selected st'))" using d1 fresh by (simp add: s)
    have p2: "\<forall>j \<in> fst ` set (hs_selected st'). j < i + 1" using b1 by (auto simp: s)
    have p3: "distinct (map fst (hs_done_calls st'))" using d2 fresh2 by (simp add: s)
    have p4: "\<forall>c \<in> set (hs_done_calls st').
            \<exists>n e. (fst c, n) \<in> set (hs_selected st') \<and> fst (snd c) = address n
                  \<and> client_Do world (fst c) = Inl e \<and> snd (snd c) = DoneInfo_Err e"
    proof
      fix c assume "c \<in> set (hs_done_calls st')"
      then consider "c \<in> set (hs_done_calls st)" | "c = (i, address n, DoneInfo_Err e)"
        by (auto simp: s)
      then show "\<exists>n e. (fst c, n) \<in> set (hs_selected st') \<and> fst (snd c) = address n
                  \<and> client_Do world (fst c) = Inl e \<and> snd (snd c) = DoneInfo_Err e"
      proof cases
        case 1
        with c1 obtain m e' where "(fst c, m) \<in> set (hs_selected st)" "fst (snd c) = address m"
          "client_Do world (fst c) = Inl e'" "snd (snd c) = DoneInfo_Err e'"
          by blast
        then show ?thesis by (auto simp: s)
      next
        case 2
        then show ?thesis using e by (auto simp: s)
      qed
    qed
    have p5: "\<forall>x \<in> set (hs_selected st'). \<forall>e'.
            client_Do world (fst x) = Inl e'
              \<longrightarrow> (fst x, address (snd x), DoneInfo_Err e') \<in> set (hs_done_calls st')"
      using c2 e by (auto simp: s)
    have "selector_logs_ok world (i + 1) (st'\<lparr>hs_resp := None\<rparr>)"
      unfolding selector_logs_ok_def using p1 p2 p3 p4 p5 by simp
    then show ?thesis using res by simp
  next
    case r: (Inr r)
    from client_RoundTrip_response [OF Inr r, of st] rt
    have res: "res = Inr r" and
      s: "hs_selected st' = hs_selected st @ [(i, n)]"
         "hs_done_calls st' = hs_done_calls st"
         "DoneFunc (hs_reqOpts st') = selector_done i (address n)"
      by auto
    have p1: "distinct (map fst (hs_selected st'))" using d1 fresh by (simp add: s)
    have p2: "\<forall>j \<in> fst ` set (hs_selected st'). j < i + 1" using b1 by (auto simp: s)
    have p3: "distinct (map fst (hs_done_calls st'))" using d2 by (simp add: s)
    have p4: "\<forall>c \<in> set (hs_done_calls st').
            \<exists>n e. (fst c, n) \<in> set (hs_selected st') \<and> fst (snd c) = address n
                  \<and> client_Do world (fst c) = Inl e \<and> snd (snd c) = DoneInfo_Err e"
    proof
      fix c assume "c \<in> set (hs_done_calls st')"
      then have "c \<in> set (hs_done_calls st)" by (simp add: s)
      with c1 obtain m e' where "(fst c, m) \<in> set (hs_selected st)" "fst (snd c) = address m"
        "client_Do world (fst c) = Inl e'" "snd (snd c) = DoneInfo_Err e'"
        by blast
      then show "\<exists>n e. (fst c, n) \<in> set (hs_selected st') \<and> fst (snd c) = address n
                  \<and> client_Do world (fst c) = Inl e \<and> snd (snd c) = DoneInfo_Err e"
        by (auto simp: s)
    qed
    have p5: "\<forall>x \<in> set (hs_selected st'). \<forall>e'.
            client_Do world (fst x) = Inl e'
              \<longrightarrow> (fst x, address (snd x), DoneInfo_Err e') \<in> set (hs_done_calls st')"
      using c2 r by (auto simp: s)
    have p6: "\<exists>j m. (j, m) \<in> set (hs_selected st') \<and> client_Do world j = Inr r
                   \<and> DoneFunc (hs_reqOpts st') = selector_done j (address m)"
      using r s by auto
    have "selector_logs_ok world (i + 1) (st'\<lparr>hs_resp := Some r\<rparr>)"
      unfolding selector_logs_ok_def using p1 p2 p3 p4 p5 p6 by simp
    then show ?thesis using res by simp
  qed
qed

lemma attempt_loop_logs:
  "selector_logs_ok world i st \<Longrightarrow> \<exists>i'. selector_logs_ok world i' (attempt_loop world n i st)"
proof (induction world n i st rule: attempt_loop.induct)
  case (1 world n i st)
  note ok = "1.prems"
  show ?case
  proof (cases "i < n \<and> \<not> (0 < i \<and> \<not> retryFeature_Enabled world i)")
    case False
    then have "attempt_loop world n i st = st"
      by (simp only: attempt_loop.simps [of world n i st]) (auto simp del: attempt_loop.simps)
    then show ?thesis using ok by auto
  next
    case True
    then have lt: "i < n" and en: "\<not> (0 < i \<and> \<not> retryFeature_Enabled world i)" by blast+
    show ?thesis
    proof (cases "if 0 < i then retryBreaker_Allow world i else None")
      case (Some e)
      then have "attempt_loop world n i st = st\<lparr>hs_telemetry := markFailed i e (hs_telemetry st)\<rparr>"
        using lt en by (simp only: attempt_loop.simps [of world n i st]) (auto simp del: attempt_loop.simps)
      then show ?thesis using ok by (auto simp: logs_ok_irrelevant)
    next
      case None
      define x where "x = (if n \<le> i + 1
          then st\<lparr>hs_reqOpts := hs_reqOpts st\<lparr>LastAttempt := True\<rparr>\<rparr> else st)"
      define xa where "xa = x\<lparr>hs_err := ctx_Err world i\<rparr>"
      have okx: "selector_logs_ok world i xa"
        using ok by (simp add: x_def xa_def logs_ok_irrelevant)
      show ?thesis
      proof (cases "hs_err xa")
        case e: (Some e)
        have "attempt_loop world n i st = xa\<lparr>hs_telemetry := markFailed i e (hs_telemetry xa)\<rparr>"
          using lt en None e unfolding x_def xa_def
          by (simp only: attempt_loop.simps [of world n i st]) (auto simp: Let_def simp del: attempt_loop.simps)
        then show ?thesis using okx by (auto simp: logs_ok_irrelevant)
      next
        case ne: None
        obtain xb y where rt: "client_RoundTrip world i xa = (xb, y)"
          by (cases "client_RoundTrip world i xa")
        note step = client_RoundTrip_logs [OF okx rt]
        show ?thesis
        proof (cases xb)
          case (Inl a)
          let ?st = "y\<lparr>hs_resp := None, hs_err := Some a,
                 hs_telemetry := markFailed i a (hs_telemetry y)\<rparr>"
          have eq: "attempt_loop world n i st = attempt_loop world n (i + 1) ?st"
            using lt en None ne rt Inl unfolding x_def xa_def
            by (simp only: attempt_loop.simps [of world n i st]) (auto simp: Let_def simp del: attempt_loop.simps)
          have ok': "selector_logs_ok world (i + 1) ?st"
            using step Inl by (simp add: logs_ok_irrelevant)
          from "1.IH"(1) [OF lt en None x_def xa_def ne rt [symmetric] Inl ok']
          show ?thesis unfolding eq .
        next
          case (Inr b)
          define xc where "xc = y\<lparr>hs_resp := Some b, hs_err := None\<rparr>"
          have okc: "selector_logs_ok world (i + 1) xc"
            using step Inr by (simp add: xc_def logs_ok_irrelevant)
          show ?thesis
          proof (cases "judgeRetryRequired world b")
            case False
            have "attempt_loop world n i st
                    = xc\<lparr>hs_reqOpts := (hs_reqOpts xc)\<lparr>LastAttempt := True\<rparr>,
                         hs_telemetry := markSuccess i (hs_telemetry xc)\<rparr>"
              using lt en None ne rt Inr False unfolding x_def xa_def xc_def
              by (simp only: attempt_loop.simps [of world n i st]) (auto simp: Let_def simp del: attempt_loop.simps)
            then show ?thesis using okc by (auto simp: logs_ok_irrelevant)
          next
            case True
            let ?st = "xc\<lparr>hs_telemetry :=
                  markFailed i (Plain ''assertion failed'') (hs_telemetry xc)\<rparr>"
            have eq: "attempt_loop world n i st = attempt_loop world n (i + 1) ?st"
              using lt en None ne rt Inr True unfolding x_def xa_def xc_def
              by (simp only: attempt_loop.simps [of world n i st]) (auto simp: Let_def simp del: attempt_loop.simps)
            have ok': "selector_logs_ok world (i + 1) ?st"
              using okc by (simp add: logs_ok_irrelevant)
            have nn: "\<not> \<not> judgeRetryRequired world b" using True by simp
            from "1.IH"(2) [OF lt en None x_def xa_def ne rt [symmetric] Inr xc_def nn ok']
            show ?thesis unfolding eq .
          qed
        qed
      qed
    qed
  qed
qed

lemma initial_logs_ok: "selector_logs_ok world 0 initial_handler_state"
  by (simp add: selector_logs_ok_def initial_handler_state_def)

lemma doCopyBody_logs:
  assumes ok: "selector_logs_ok world i st" and resp: "hs_resp st = Some r"
    and cp: "doCopyBody ep r st w = (flag, st', w')"
  shows "hs_selected st' = hs_selected st
       \<and> hs_resp st' = Some r
       \<and> distinct (map fst (hs_done_calls st'))
       \<and> set (hs_done_calls st) \<subseteq> set (hs_done_calls st')
       \<and> (\<exists>j n. (j, n) \<in> set (hs_selected st) \<and> client_Do world j = Inr r
             \<and> (\<forall>sent. resp_Body r = Some (sent, None)
                   \<longrightarrow> (j, address n, DoneInfo_ReplyMD (getReplyMD ep r)) \<in> set (hs_done_calls st'))
             \<and> (\<forall>sent er. resp_Body r = Some (sent, Some er)
                   \<longrightarrow> (j, address n, DoneInfo_Err er) \<in> set (hs_done_calls st')))"
proof -
  from ok have
    d2: "distinct (map fst (hs_done_calls st))" and
    c1: "\<forall>c \<in> set (hs_done_calls st).
            \<exists>n e. (fst c, n) \<in> set (hs_selected st) \<and> fst (snd c) = address n
                  \<and> client_Do world (fst c) = Inl e \<and> snd (snd c) = DoneInfo_Err e" and
    c3: "\<forall>r. hs_resp st = Some r \<longrightarrow>
            (\<exists>j n. (j, n) \<in> set (hs_selected st) \<and> client_Do world j = Inr r
                   \<and> DoneFunc (hs_reqOpts st) = selector_done j (address n))"
    unfolding selector_logs_ok_def by blast+
  from c3 resp obtain j n where
    jn: "(j, n) \<in> set (hs_selected st)" "client_Do world j = Inr r"
        "DoneFunc (hs_reqOpts st) = selector_done j (address n)"
    by blast
  have fresh: "j \<notin> fst ` set (hs_done_calls st)"
  proof
    assume "j \<in> fst ` set (hs_done_calls st)"
    then obtain c where "c \<in> set (hs_done_calls st)" "fst c = j" by auto
    with c1 obtain e where "client_Do world j = Inl e" by blast
    with jn(2) show False by simp
  qed
  show ?thesis
  proof (cases "resp_Body r")
    case None
    with cp have "st' = st" by (simp add: doCopyBody_def)
    then show ?thesis using d2 resp jn None by auto
  next
    case (Some body)
    obtain sent cerr where body: "body = (sent, cerr)" by (cases body)
    show ?thesis
    proof (cases cerr)
      case None
      with cp Some body jn(3) have
        st': "hs_done_calls st'
                = hs_done_calls st @ [(j, address n, DoneInfo_ReplyMD (getReplyMD ep r))]"
          "hs_selected st' = hs_selected st" "hs_resp st' = hs_resp st"
        by (auto simp: doCopyBody_def call_DoneFunc_def)
      show ?thesis
        using d2 fresh jn resp Some body None by (auto simp: st')
    next
      case e: (Some er)
      with cp Some body jn(3) have
        st': "hs_done_calls st' = hs_done_calls st @ [(j, address n, DoneInfo_Err er)]"
          "hs_selected st' = hs_selected st" "hs_resp st' = hs_resp st"
        by (auto simp: doCopyBody_def call_DoneFunc_def)
      show ?thesis
        using d2 fresh jn resp Some body e by (auto simp: st')
    qed
  qed
qed

text \<open>C2 as stated does not hold. In a request with two attempts and a retry condition on
  5xx, the selector returns a node in attempt 0, whose backend answers 503, and a node in
  attempt 1, whose backend answers 200 with a body whose copy to the client fails. The
  only \<open>done\<close> call is that of the second node, and it carries the copy error: the
  transport call of that attempt did not fail and no reply metadata is passed. The first
  node's \<open>done\<close> is not called at all.\<close>

theorem done_callbacks_counterexample:
  "map fst (hs_selected (fst (snd (serve (\<lambda>c. 2)
     \<lparr>ReadAll_Body = None,
      retryFeature_Enabled = (\<lambda>i. True),
      retryBreaker_Allow = (\<lambda>i. None),
      ctx_Err = (\<lambda>i. None),
      selector_Select = (\<lambda>i. if i = 0
         then Inr (newNode ''10.0.0.1:80'' HTTP None Map.empty [] [] [])
         else Inr (newNode ''10.0.0.2:80'' HTTP None Map.empty [] [] [])),
      client_Do = (\<lambda>i. if i = 0
         then Inr \<lparr>StatusCode = 503, resp_Header = Map.empty, resp_Trailer = Map.empty,
                   resp_Body = Some (0, None)\<rparr>
         else Inr \<lparr>StatusCode = 200, resp_Header = Map.empty, resp_Trailer = Map.empty,
                   resp_Body = Some (1, Some (Plain ''write: broken pipe''))\<rparr>),
      judgeRetryRequired = (\<lambda>r. 500 \<le> StatusCode r)\<rparr>
     \<lparr>h_endpoint = \<lparr>Path = ''/echo'', Method = ''GET'', ep_Host = [], ep_Protocol = HTTP,
                     Timeout = None,
                     ep_Retry = Some \<lparr>Attempts = 2, PerTryTimeout = None,
                                      Conditions = [''5xx'']\<rparr>,
                     Middlewares = []\<rparr>,
      h_tripper = [],
      h_retryStrategy = \<lparr>attempts = 2, timeout = Second, perTryTimeout = Second,
                          conditions = [''5xx'']\<rparr>\<rparr>
     \<lparr>rw_Header = Map.empty, WriteHeader_calls = [], requests_code_total = []\<rparr>)))) = [0, 1]
   \<and> hs_done_calls (fst (snd (serve (\<lambda>c. 2)
     \<lparr>ReadAll_Body = None,
      retryFeature_Enabled = (\<lambda>i. True),
      retryBreaker_Allow = (\<lambda>i. None),
      ctx_Err = (\<lambda>i. None),
      selector_Select = (\<lambda>i. if i = 0
         then Inr (newNode ''10.0.0.1:80'' HTTP None Map.empty [] [] [])
         else Inr (newNode ''10.0.0.2:80'' HTTP None Map.empty [] [] [])),
      client_Do = (\<lambda>i. if i = 0
         then Inr \<lparr>StatusCode = 503, resp_Header = Map.empty, resp_Trailer = Map.empty,
                   resp_Body = Some (0, None)\<rparr>
         else Inr \<lparr>StatusCode = 200, resp_Header = Map.empty, resp_Trailer = Map.empty,
                   resp_Body = Some (1, Some (Plain ''write: broken pipe''))\<rparr>),
      judgeRetryRequired = (\<lambda>r. 500 \<le> StatusCode r)\<rparr>
     \<lparr>h_endpoint = \<lparr>Path = ''/echo'', Method = ''GET'', ep_Host = [], ep_Protocol = HTTP,
                     Timeout = None,
                     ep_Retry = Some \<lparr>Attempts = 2, PerTryTimeout = None,
                                      Conditions = [''5xx'']\<rparr>,
                     Middlewares = []\<rparr>,
      h_tripper = [],
      h_retryStrategy = \<lparr>attempts = 2, timeout = Second, perTryTimeout = Second,
                          conditions = [''5xx'']\<rparr>\<rparr>
     \<lparr>rw_Header = Map.empty, WriteHeader_calls = [], requests_code_total = []\<rparr>)))
       = [(1, ''10.0.0.2:80'', DoneInfo_Err (Plain ''write: broken pipe''))]"
  by (simp add: serve_def attempt_loop.simps client_RoundTrip_def call_DoneFunc_def
        doCopyBody_def getReplyMD_def initial_handler_state_def NewRequestOptions_def
        newNode_def markFailed_def markFailedStat_def markSuccess_def markSuccessStat_def
        retryStateIncr_def WriteHeader_def requestsTotalIncr_def Let_def)

text \<open>C2, amended: in every request no \<open>done\<close> callback is invoked more than once (there
  is one selection per attempt at most); the callback of a node whose attempt's transport
  call fails is invoked, with that error; and when the handler writes a response back, it
  is the answer to one of the selections, and if it has a body the callback of that
  selection's node is invoked after the copy, with the reply metadata (the trailer for a
  GRPC endpoint, the headers otherwise) when the body was copied in full and with the copy
  error when the copy failed.\<close>

theorem done_callbacks:
  assumes "serve G world h w = (fin, st, w')"
  shows "distinct (map fst (hs_selected st))
       \<and> distinct (map fst (hs_done_calls st))
       \<and> (\<forall>s \<in> set (hs_selected st). \<forall>e.
             client_Do world (fst s) = Inl e
               \<longrightarrow> (fst s, address (snd s), DoneInfo_Err e) \<in> set (hs_done_calls st))
       \<and> (fin = wrote_response \<longrightarrow>
            (\<exists>j n r. (j, n) \<in> set (hs_selected st) \<and> client_Do world j = Inr r
               \<and> hs_resp st = Some r
               \<and> (\<forall>sent. resp_Body r = Some (sent, None)
                     \<longrightarrow> (j, address n, DoneInfo_ReplyMD (getReplyMD (h_endpoint h) r))
                           \<in> set (hs_done_calls st))
               \<and> (\<forall>sent er. resp_Body r = Some (sent, Some er)
                     \<longrightarrow> (j, address n, DoneInfo_Err er) \<in> set (hs_done_calls st))))"
proof (cases "ReadAll_Body world")
  case (Some er)
  with assms have "fin = wrote_error" "st = initial_handler_state"
    by (auto simp: serve_def Let_def)
  then show ?thesis by (simp add: initial_handler_state_def)
next
  case None
  define st1 where
    "st1 = attempt_loop world (attempts (h_retryStrategy h)) 0 initial_handler_state"
  from attempt_loop_logs [OF initial_logs_ok] obtain i' where ok: "selector_logs_ok world i' st1"
    unfolding st1_def by blast
  from ok have
    d1: "distinct (map fst (hs_selected st1))" and
    d2: "distinct (map fst (hs_done_calls st1))" and
    c2: "\<forall>s \<in> set (hs_selected st1). \<forall>e.
            client_Do world (fst s) = Inl e
              \<longrightarrow> (fst s, address (snd s), DoneInfo_Err e) \<in> set (hs_done_calls st1)"
    unfolding selector_logs_ok_def by blast+
  show ?thesis
  proof (cases "hs_err st1")
    case (Some er)
    with assms None have "fin = wrote_error" "st = st1"
      by (auto simp: serve_def Let_def st1_def)
    then show ?thesis using d1 d2 c2 by simp
  next
    case ne: None
    show ?thesis
    proof (cases "hs_resp st1")
      case None
      with assms \<open>ReadAll_Body world = None\<close> ne have "fin = nil_response_panic" "st = st1"
        by (auto simp: serve_def Let_def st1_def)
      then show ?thesis using d1 d2 c2 by simp
    next
      case (Some r)
      let ?w = "WriteHeader (StatusCode r) (w\<lparr>rw_Header := rw_Header w ++ resp_Header r\<rparr>)"
      obtain flag st2 w2 where cp: "doCopyBody (h_endpoint h) r st1 ?w = (flag, st2, w2)"
        by (cases "doCopyBody (h_endpoint h) r st1 ?w")
      with assms \<open>ReadAll_Body world = None\<close> ne Some have fin: "fin = wrote_response" "st = st2"
        by (auto simp: serve_def Let_def st1_def)
      note dl = doCopyBody_logs [OF ok Some cp]
      from dl have sel: "hs_selected st2 = hs_selected st1" by blast
      from dl have sub: "set (hs_done_calls st1) \<subseteq> set (hs_done_calls st2)" by blast
      have p3: "\<forall>s \<in> set (hs_selected st2). \<forall>e.
             client_Do world (fst s) = Inl e
               \<longrightarrow> (fst s, address (snd s), DoneInfo_Err e) \<in> set (hs_done_calls st2)"
        using c2 sub unfolding sel by blast
      show ?thesis
        unfolding fin using d1 p3 dl unfolding sel by blast
    qed
  qed
qed

theorem done_callbacks_witness:
  "fst (serve (\<lambda>c. 2)
     \<lparr>ReadAll_Body = None,
      retryFeature_Enabled = (\<lambda>i. True),
      retryBreaker_Allow = (\<lambda>i. None),
      ctx_Err = (\<lambda>i. None),
      selector_Select = (\<lambda>i. if i = 0
         then Inr (newNode ''10.0.0.1:80'' HTTP None Map.empty [] [] [])
         else Inr (newNode ''10.0.0.2:80'' HTTP None Map.empty [] [] [])),
      client_Do = (\<lambda>i. if i = 0
         then Inl (Plain ''dial tcp: connection refused'')
         else Inr \<lparr>StatusCode = 200, resp_Header = Map.empty, resp_Trailer = Map.empty,
                   resp_Body = Some (2, None)\<rparr>),
      judgeRetryRequired = (\<lambda>r. 500 \<le> StatusCode r)\<rparr>
     \<lparr>h_endpoint = \<lparr>Path = ''/echo'', Method = ''GET'', ep_Host = [], ep_Protocol = HTTP,
                     Timeout = None,
                     ep_Retry = Some \<lparr>Attempts = 2, PerTryTimeout = None,
                                      Conditions = [''5xx'']\<rparr>,
                     Middlewares = []\<rparr>,
      h_tripper = [],
      h_retryStrategy = \<lparr>attempts = 2, timeout = Second, perTryTimeout = Second,
                          conditions = [''5xx'']\<rparr>\<rparr>
     \<lparr>rw_Header = Map.empty, WriteHeader_calls = [], requests_code_total = []\<rparr>) = wrote_response
   \<and> map fst (hs_selected (fst (snd (serve (\<lambda>c. 2)
     \<lparr>ReadAll_Body = None,
      retryFeature_Enabled = (\<lambda>i. True),
      retryBreaker_Allow = (\<lambda>i. None),
      ctx_Err = (\<lambda>i. None),
      selector_Select = (\<lambda>i. if i = 0
         then Inr (newNode ''10.0.0.1:80'' HTTP None Map.empty [] [] [])
         else Inr (newNode ''10.0.0.2:80'' HTTP None Map.empty [] [] [])),
      client_Do = (\<lambda>i. if i = 0
         then Inl (Plain ''dial tcp: connection refused'')
         else Inr \<lparr>StatusCode = 200, resp_Header = Map.empty, resp_Trailer = Map.empty,
                   resp_Body = Some (2, None)\<rparr>),
      judgeRetryRequired = (\<lambda>r. 500 \<le> StatusCode r)\<rparr>
     \<lparr>h_endpoint = \<lparr>Path = ''/echo'', Method = ''GET'', ep_Host = [], ep_Protocol = HTTP,
                     Timeout = None,
                     ep_Retry = Some \<lparr>Attempts = 2, PerTryTimeout = None,
                                      Conditions = [''5xx'']\<rparr>,
                     Middlewares = []\<rparr>,
      h_tripper = [],
      h_retryStrategy = \<lparr>attempts = 2, timeout = Second, perTryTimeout = Second,
                          conditions = [''5xx'']\<rparr>\<rparr>
     \<lparr>rw_Header = Map.empty, WriteHeader_calls = [], requests_code_total = []\<rparr>)))) = [0, 1]
   \<and> hs_done_calls (fst (snd (serve (\<lambda>c. 2)
     \<lparr>ReadAll_Body = None,
      retryFeature_Enabled = (\<lambda>i. True),
      retryBreaker_Allow = (\<lambda>i. None),
      ctx_Err = (\<lambda>i. None),
      selector_Select = (\<lambda>i. if i = 0
         then Inr (newNode ''10.0.0.1:80'' HTTP None Map.empty [] [] [])
         else Inr (newNode ''10.0.0.2:80'' HTTP None Map.empty [] [] [])),
      client_Do = (\<lambda>i. if i = 0
         then Inl (Plain ''dial tcp: connection refused'')
         else Inr \<lparr>StatusCode = 200, resp_Header = Map.empty, resp_Trailer = Map.empty,
                   resp_Body = Some (2, None)\<rparr>),
      judgeRetryRequired = (\<lambda>r. 500 \<le> StatusCode r)\<rparr>
     \<lparr>h_endpoint = \<lparr>Path = ''/echo'', Method = ''GET'', ep_Host = [], ep_Protocol = HTTP,
                     Timeout = None,
                     ep_Retry = Some \<lparr>Attempts = 2, PerTryTimeout = None,
                                      Conditions = [''5xx'']\<rparr>,
                     Middlewares = []\<rparr>,
      h_tripper = [],
      h_retryStrategy = \<lparr>attempts = 2, timeout = Second, perTryTimeout = Second,
                          conditions = [''5xx'']\<rparr>\<rparr>
     \<lparr>rw_Header = Map.empty, WriteHeader_calls = [], requests_code_total = []\<rparr>)))
       = [(0, ''10.0.0.1:80'', DoneInfo_Err (Plain ''dial tcp: connection refused'')),
          (1, ''10.0.0.2:80'', DoneInfo_ReplyMD Map.empty)]"
proof -
  have s: "serve (\<lambda>c. 2)
     \<lparr>ReadAll_Body = None,
      retryFeature_Enabled = (\<lambda>i. True),
      retryBreaker_Allow = (\<lambda>i. None),
      ctx_Err = (\<lambda>i. None),
      selector_Select = (\<lambda>i. if i = 0
         then Inr (newNode ''10.0.0.1:80'' HTTP None Map.empty [] [] [])
         else Inr (newNode ''10.0.0.2:80'' HTTP None Map.empty [] [] [])),
      client_Do = (\<lambda>i. if i = 0
         then Inl (Plain ''dial tcp: connection refused'')
         else Inr \<lparr>StatusCode = 200, resp_Header = Map.empty, resp_Trailer = Map.empty,
                   resp_Body = Some (2, None)\<rparr>),
      judgeRetryRequired = (\<lambda>r. 500 \<le> StatusCode r)\<rparr>
     \<lparr>h_endpoint = \<lparr>Path = ''/echo'', Method = ''GET'', ep_Host = [], ep_Protocol = HTTP,
                     Timeout = None,
                     ep_Retry = Some \<lparr>Attempts = 2, PerTryTimeout = None,
                                      Conditions = [''5xx'']\<rparr>,
                     Middlewares = []\<rparr>,
      h_tripper = [],
      h_retryStrategy = \<lparr>attempts = 2, timeout = Second, perTryTimeout = Second,
                          conditions = [''5xx'']\<rparr>\<rparr>
     \<lparr>rw_Header = Map.empty, WriteHeader_calls = [], requests_code_total = []\<rparr>
     = (fst (serve (\<lambda>c. 2)
     \<lparr>ReadAll_Body = None,
      retryFeature_Enabled = (\<lambda>i. True),
      retryBreaker_Allow = (\<lambda>i. None),
      ctx_Err = (\<lambda>i. None),
      selector_Select = (\<lambda>i. if i = 0
         then Inr (newNode ''10.0.0.1:80'' HTTP None Map.empty [] [] [])
         else Inr (newNode ''10.0.0.2:80'' HTTP None Map.empty [] [] [])),
      client_Do = (\<lambda>i. if i = 0
         then Inl (Plain ''dial tcp: connection refused'')
         else Inr \<lparr>StatusCode = 200, resp_Header = Map.empty, resp_Trailer = Map.empty,
                   resp_Body = Some (2, None)\<rparr>),
      judgeRetryRequired = (\<lambda>r. 500 \<le> StatusCode r)\<rparr>
     \<lparr>h_endpoint = \<lparr>Path = ''/echo'', Method = ''GET'', ep_Host = [], ep_Protocol = HTTP,
                     Timeout = None,
                     ep_Retry = Some \<lparr>Attempts = 2, PerTryTimeout = None,
                                      Conditions = [''5xx'']\<rparr>,
                     Middlewares = []\<rparr>,
      h_tripper = [],
      h_retryStrategy = \<lparr>attempts = 2, timeout = Second, perTryTimeout = Second,
                          conditions = [''5xx'']\<rparr>\<rparr>
     \<lparr>rw_Header = Map.empty, WriteHeader_calls = [], requests_code_total = []\<rparr>),
        fst (snd (serve (\<lambda>c. 2)
     \<lparr>ReadAll_Body = None,
      retryFeature_Enabled = (\<lambda>i. True),
      retryBreaker_Allow = (\<lambda>i. None),
      ctx_Err = (\<lambda>i. None),
      selector_Select = (\<lambda>i. if i = 0
         then Inr (newNode ''10.0.0.1:80'' HTTP None Map.empty [] [] [])
         else Inr (newNode ''10.0.0.2:80'' HTTP None Map.empty [] [] [])),
      client_Do = (\<lambda>i. if i = 0
         then Inl (Plain ''dial tcp: connection refused'')
         else Inr \<lparr>StatusCode = 200, resp_Header = Map.empty, resp_Trailer = Map.empty,
                   resp_Body = Some (2, None)\<rparr>),
      judgeRetryRequired = (\<lambda>r. 500 \<le> StatusCode r)\<rparr>
     \<lparr>h_endpoint = \<lparr>Path = ''/echo'', Method = ''GET'', ep_Host = [], ep_Protocol = HTTP,
                     Timeout = None,
                     ep_Retry = Some \<lparr>Attempts = 2, PerTryTimeout = None,
                                      Conditions = [''5xx'']\<rparr>,
                     Middlewares = []\<rparr>,
      h_tripper = [],
      h_retryStrategy = \<lparr>attempts = 2, timeout = Second, perTryTimeout = Second,
                          conditions = [''5xx'']\<rparr>\<rparr>
     \<lparr>rw_Header = Map.empty, WriteHeader_calls = [], requests_code_total = []\<rparr>)),
        snd (snd (serve (\<lambda>c. 2)
     \<lparr>ReadAll_Body = None,
      retryFeature_Enabled = (\<lambda>i. True),
      retryBreaker_Allow = (\<lambda>i. None),
      ctx_Err = (\<lambda>i. None),
      selector_Select = (\<lambda>i. if i = 0
         then Inr (newNode ''10.0.0.1:80'' HTTP None Map.empty [] [] [])
         else Inr (newNode ''10.0.0.2:80'' HTTP None Map.empty [] [] [])),
      client_Do = (\<lambda>i. if i = 0
         then Inl (Plain ''dial tcp: connection refused'')
         else Inr \<lparr>StatusCode = 200, resp_Header = Map.empty, resp_Trailer = Map.empty,
                   resp_Body = Some (2, None)\<rparr>),
      judgeRetryRequired = (\<lambda>r. 500 \<le> StatusCode r)\<rparr>
     \<lparr>h_endpoint = \<lparr>Path = ''/echo'', Method = ''GET'', ep_Host = [], ep_Protocol = HTTP,
                     Timeout = None,
                     ep_Retry = Some \<lparr>Attempts = 2, PerTryTimeout = None,
                                      Conditions = [''5xx'']\<rparr>,
                     Middlewares = []\<rparr>,
      h_tripper = [],
      h_retryStrategy = \<lparr>attempts = 2, timeout = Second, perTryTimeout = Second,
                          conditions = [''5xx'']\<rparr>\<rparr>
     \<lparr>rw_Header = Map.empty, WriteHeader_calls = [], requests_code_total = []\<rparr>)))"
    by simp
  show ?thesis
    using done_callbacks [OF s]
    by (simp add: serve_def attempt_loop.simps client_RoundTrip_def call_DoneFunc_def
        doCopyBody_def getReplyMD_def initial_handler_state_def NewRequestOptions_def
        newNode_def markFailed_def markFailedStat_def markSuccess_def markSuccessStat_def
        retryStateIncr_def WriteHeader_def requestsTotalIncr_def Let_def)
qed

text \<open>What the amended statement leaves open: the callback of a node whose response is
  set aside by a retry. With the same two attempts and a second response that copies in
  full, \<open>reqOpts.DoneFunc\<close> holds the first node's \<open>done\<close> after attempt 0, attempt 1
  overwrites it, and the first node's \<open>done\<close> is never called.\<close>

lemma superseded_done_never_called:
  "map fst (hs_selected (fst (snd (serve (\<lambda>c. 2)
     \<lparr>ReadAll_Body = None,
      retryFeature_Enabled = (\<lambda>i. True),
      retryBreaker_Allow = (\<lambda>i. None),
      ctx_Err = (\<lambda>i. None),
      selector_Select = (\<lambda>i. if i = 0
         then Inr (newNode ''10.0.0.1:80'' HTTP None Map.empty [] [] [])
         else Inr (newNode ''10.0.0.2:80'' HTTP None Map.empty [] [] [])),
      client_Do = (\<lambda>i. if i = 0
         then Inr \<lparr>StatusCode = 503, resp_Header = Map.empty, resp_Trailer = Map.empty,
                   resp_Body = Some (0, None)\<rparr>
         else Inr \<lparr>StatusCode = 200, resp_Header = Map.empty, resp_Trailer = Map.empty,
                   resp_Body = Some (2, None)\<rparr>),
      judgeRetryRequired = (\<lambda>r. 500 \<le> StatusCode r)\<rparr>
     \<lparr>h_endpoint = \<lparr>Path = ''/echo'', Method = ''GET'', ep_Host = [], ep_Protocol = HTTP,
                     Timeout = None,
                     ep_Retry = Some \<lparr>Attempts = 2, PerTryTimeout = None,
                                      Conditions = [''5xx'']\<rparr>,
                     Middlewares = []\<rparr>,
      h_tripper = [],
      h_retryStrategy = \<lparr>attempts = 2, timeout = Second, perTryTimeout = Second,
                          conditions = [''5xx'']\<rparr>\<rparr>
     \<lparr>rw_Header = Map.empty, WriteHeader_calls = [], requests_code_total = []\<rparr>)))) = [0, 1]
   \<and> hs_done_calls (fst (snd (serve (\<lambda>c. 2)
     \<lparr>ReadAll_Body = None,
      retryFeature_Enabled = (\<lambda>i. True),
      retryBreaker_Allow = (\<lambda>i. None),
      ctx_Err = (\<lambda>i. None),
      selector_Select = (\<lambda>i. if i = 0
         then Inr (newNode ''10.0.0.1:80'' HTTP None Map.empty [] [] [])
         else Inr (newNode ''10.0.0.2:80'' HTTP None Map.empty [] [] [])),
      client_Do = (\<lambda>i. if i = 0
         then Inr \<lparr>StatusCode = 503, resp_Header = Map.empty, resp_Trailer = Map.empty,
                   resp_Body = Some (0, None)\<rparr>
         else Inr \<lparr>StatusCode = 200, resp_Header = Map.empty, resp_Trailer = Map.empty,
                   resp_Body = Some (2, None)\<rparr>),
      judgeRetryRequired = (\<lambda>r. 500 \<le> StatusCode r)\<rparr>
     \<lparr>h_endpoint = \<lparr>Path = ''/echo'', Method = ''GET'', ep_Host = [], ep_Protocol = HTTP,
                     Timeout = None,
                     ep_Retry = Some \<lparr>Attempts = 2, PerTryTimeout = None,
                                      Conditions = [''5xx'']\<rparr>,
                     Middlewares = []\<rparr>,
      h_tripper = [],
      h_retryStrategy = \<lparr>attempts = 2, timeout = Second, perTryTimeout = Second,
                          conditions = [''5xx'']\<rparr>\<rparr>
     \<lparr>rw_Header = Map.empty, WriteHeader_calls = [], requests_code_total = []\<rparr>)))
       = [(1, ''10.0.0.2:80'', DoneInfo_ReplyMD Map.empty)]"
  by (simp add: serve_def attempt_loop.simps client_RoundTrip_def call_DoneFunc_def
        doCopyBody_def getReplyMD_def initial_handler_state_def NewRequestOptions_def
        newNode_def markFailed_def markFailedStat_def markSuccess_def markSuccessStat_def
        retryStateIncr_def WriteHeader_def requestsTotalIncr_def Let_def)

section \<open>Path cleaner: properties\<close>

lemma rooted_path_snoc:
  "rooted_path (st @ [seg]) = (if st = [] then ''/'' @ seg else rooted_path st @ ''/'' @ seg)"
  by (simp add: rooted_path_def)

lemma rooted_path_nonempty: "rooted_path st \<noteq> []"
  by (cases st) (simp_all add: rooted_path_def)

lemma rooted_path_hd: "hd (rooted_path st) = CHR ''/''"
  by (cases st) (simp_all add: rooted_path_def)

lemma rooted_path_length_1:
  "\<forall>s \<in> set st. path_element s \<Longrightarrow> (length (rooted_path st) = 1) = (st = [])"
proof (cases st)
  case Nil
  then show ?thesis by (simp add: rooted_path_def)
next
  case (Cons a list)
  assume "\<forall>s \<in> set st. path_element s"
  with Cons have "a \<noteq> []" by (simp add: path_element_def)
  with Cons show ?thesis by (simp add: rooted_path_def)
qed

lemma rooted_path_eq_root:
  "\<forall>s \<in> set st. path_element s \<Longrightarrow> (rooted_path st = ''/'') = (st = [])"
  using rooted_path_length_1 [of st] by (auto simp: rooted_path_def)

lemma rooted_path_last:
  assumes "\<forall>s \<in> set st. path_element s" and "st \<noteq> []"
  shows "last (rooted_path st) \<noteq> CHR ''/''"
proof -
  obtain pre seg where st: "st = pre @ [seg]"
    using assms(2) by (metis append_butlast_last_id)
  with assms(1) have pe: "path_element seg" by simp
  then have "seg \<noteq> []" and "CHR ''/'' \<notin> set seg"
    by (simp_all add: path_element_def)
  then have "seg \<noteq> []" "last seg \<noteq> CHR ''/''"
    by (simp, metis last_in_set)
  then show ?thesis
    unfolding st rooted_path_snoc by (simp split: if_splits)
qed

lemma backtrack_loop_down:
  assumes "CHR ''/'' \<notin> set seg" and "pre \<noteq> []" and "k \<le> length seg"
  shows "backtrack_loop (pre @ CHR ''/'' # seg) 1 (length pre + k) = length pre"
  using assms(3)
proof (induction k)
  case 0
  then show ?case
    by (subst backtrack_loop.simps) (simp add: nth_append)
next
  case (Suc k)
  then have "k < length seg" by simp
  then have "seg ! k \<in> set seg" by simp
  with assms(1) have ne: "seg ! k \<noteq> CHR ''/''" by metis
  have nth: "(pre @ CHR ''/'' # seg) ! (length pre + Suc k) = seg ! k"
    by (simp add: nth_append)
  have "length pre + Suc k > 1" using assms(2) by (cases pre) simp_all
  then show ?case
    using Suc ne nth by (subst backtrack_loop.simps) simp
qed

lemma backtrack_loop_first:
  assumes "CHR ''/'' \<notin> set seg" and "k < length seg"
  shows "backtrack_loop (CHR ''/'' # seg) 1 (Suc k) = 1"
  using assms(2)
proof (induction k)
  case 0
  then show ?case
    by (subst backtrack_loop.simps) simp
next
  case (Suc k)
  then have "seg ! Suc k \<in> set seg" by simp
  with assms(1) have ne: "seg ! Suc k \<noteq> CHR ''/''" by metis
  show ?case
    using Suc ne by (subst backtrack_loop.simps) simp
qed

lemma backtrack_rooted_path:
  assumes "path_element seg"
  shows "backtrack (rooted_path (st @ [seg])) 1 = rooted_path st"
proof -
  from assms have ns: "CHR ''/'' \<notin> set seg" and ne: "seg \<noteq> []"
    by (simp_all add: path_element_def)
  show ?thesis
  proof (cases "st = []")
    case True
    from ne obtain k where k: "length seg = Suc k" by (cases seg) simp_all
    then have "backtrack_loop (CHR ''/'' # seg) 1 (Suc k) = 1"
      using backtrack_loop_first [OF ns, of k] by simp
    then show ?thesis
      using True k by (simp add: backtrack_def rooted_path_def)
  next
    case False
    let ?P = "rooted_path st"
    have "backtrack_loop (?P @ CHR ''/'' # seg) 1 (length ?P + length seg) = length ?P"
      by (rule backtrack_loop_down [OF ns rooted_path_nonempty]) simp
    then show ?thesis
      using False by (simp add: backtrack_def rooted_path_snoc)
  qed
qed

lemma default_out:
  assumes "\<forall>s \<in> set st. path_element s"
  shows "(if length (rooted_path st) \<noteq> 1 then rooted_path st @ ''/'' else rooted_path st) @ elem
           = rooted_path (st @ [elem])"
  using rooted_path_length_1 [OF assms]
  by (auto simp: rooted_path_snoc) (simp add: rooted_path_def)

lemma takeWhile_element:
  assumes "c \<noteq> CHR ''/''" and "\<not> dot_element (c # cs)" and "\<not> dotdot_element (c # cs)"
  shows "path_element (takeWhile (\<lambda>x. x \<noteq> CHR ''/'') (c # cs))"
proof -
  let ?t = "takeWhile (\<lambda>x. x \<noteq> CHR ''/'')"
  have e: "?t (c # cs) = c # ?t cs" using assms(1) by simp
  have ns: "CHR ''/'' \<notin> set (?t (c # cs))"
    using set_takeWhileD [of "CHR ''/''" "\<lambda>x. x \<noteq> CHR ''/''" "c # cs"] by blast
  have nd: "?t (c # cs) \<noteq> ''.''"
  proof
    assume "?t (c # cs) = ''.''"
    with e have "c = CHR ''.''" "?t cs = []" by simp_all
    then have "dot_element (c # cs)"
      by (cases cs) (auto simp: dot_element_def split: if_splits)
    with assms(2) show False by blast
  qed
  have ndd: "?t (c # cs) \<noteq> ''..''"
  proof
    assume "?t (c # cs) = ''..''"
    with e have c: "c = CHR ''.''" and t: "?t cs = ''.''" by simp_all
    from t obtain ds where cs: "cs = CHR ''.'' # ds" and "?t ds = []"
      by (cases cs) (auto split: if_splits)
    then have "case ds of [] \<Rightarrow> True | e # es \<Rightarrow> e = CHR ''/''"
      by (cases ds) (auto split: if_splits)
    with c cs have "dotdot_element (c # cs)" by (simp add: dotdot_element_def)
    with assms(3) show False by blast
  qed
  show ?thesis
    using e ns nd ndd by (simp add: path_element_def)
qed

lemma Clean_loop_rooted:
  "\<forall>s \<in> set st. path_element s \<Longrightarrow>
   \<exists>st'. (\<forall>s \<in> set st'. path_element s) \<and> Clean_loop True (rooted_path st) 1 rest = rooted_path st'"
proof (induction rest arbitrary: st rule: length_induct)
  case (1 rest)
  have IH: "\<exists>st'. (\<forall>s \<in> set st'. path_element s)
                 \<and> Clean_loop True (rooted_path st0) 1 ys = rooted_path st'"
    if "length ys < length rest" and "\<forall>s \<in> set st0. path_element s" for ys st0
    using "1.IH" that by blast
  note good = "1.prems"
  show ?case
  proof (cases rest)
    case Nil
    then show ?thesis using good by auto
  next
    case (Cons c cs)
    have short: "length cs < length rest" "length (drop 1 cs) < length rest"
      "length (dropWhile (\<lambda>x. x \<noteq> CHR ''/'') cs) < length rest"
      using Cons length_dropWhile_le [of "\<lambda>x. x \<noteq> CHR ''/''" cs]
      by (simp_all add: le_imp_less_Suc)
    show ?thesis
    proof (cases "c = CHR ''/'' \<or> dot_element (c # cs)")
      case True
      then have "Clean_loop True (rooted_path st) 1 rest = Clean_loop True (rooted_path st) 1 cs"
        unfolding Cons by auto
      then show ?thesis using IH [OF short(1) good] by simp
    next
      case False
      then have nsl: "c \<noteq> CHR ''/''" and ndot: "\<not> dot_element (c # cs)" by blast+
      show ?thesis
      proof (cases "dotdot_element (c # cs)")
        case True
        show ?thesis
        proof (cases "st = []")
          case e: True
          then have "Clean_loop True (rooted_path st) 1 rest
                       = Clean_loop True (rooted_path st) 1 (drop 1 cs)"
            unfolding Cons using nsl ndot True by (simp add: rooted_path_def)
          then show ?thesis using IH [OF short(2) good] by simp
        next
          case ne: False
          then have st: "st = butlast st @ [last st]" by simp
          have pl: "path_element (last st)" using good ne by simp
          have gb: "\<forall>s \<in> set (butlast st). path_element s"
            using good by (meson in_set_butlastD)
          have bt: "backtrack (rooted_path st) 1 = rooted_path (butlast st)"
            using backtrack_rooted_path [OF pl, of "butlast st"] st by simp
          have "length (rooted_path st) > 1"
            using rooted_path_length_1 [OF good] ne rooted_path_nonempty [of st]
            by (cases "rooted_path st") auto
          then have "Clean_loop True (rooted_path st) 1 rest
                       = Clean_loop True (rooted_path (butlast st)) 1 (drop 1 cs)"
            unfolding Cons using nsl ndot True bt by simp
          then show ?thesis using IH [OF short(2) gb] by simp
        qed
      next
        case nd: False
        let ?elem = "takeWhile (\<lambda>x. x \<noteq> CHR ''/'') (c # cs)"
        have pe: "path_element ?elem" by (rule takeWhile_element [OF nsl ndot nd])
        have g': "\<forall>s \<in> set (st @ [?elem]). path_element s" using good pe by simp
        have "Clean_loop True (rooted_path st) 1 rest
                = Clean_loop True (rooted_path (st @ [?elem])) 1
                    (dropWhile (\<lambda>x. x \<noteq> CHR ''/'') cs)"
          unfolding Cons using nsl ndot nd default_out [OF good, of ?elem]
          by (simp add: Let_def)
        then show ?thesis using IH [OF short(3) g'] by simp
      qed
    qed
  qed
qed

lemma element_not_special:
  assumes "path_element seg" and "tl_rest = [] \<or> hd tl_rest = CHR ''/''"
  shows "\<exists>c cs. seg = c # cs \<and> c \<noteq> CHR ''/'' \<and> \<not> dot_element (c # cs @ tl_rest)
           \<and> \<not> dotdot_element (c # cs @ tl_rest)
           \<and> takeWhile (\<lambda>x. x \<noteq> CHR ''/'') (c # cs @ tl_rest) = seg
           \<and> dropWhile (\<lambda>x. x \<noteq> CHR ''/'') (cs @ tl_rest) = tl_rest"
proof -
  from assms(1) obtain c cs where seg: "seg = c # cs"
    by (cases seg) (auto simp: path_element_def)
  from assms(1) seg have ns: "c \<noteq> CHR ''/''" "CHR ''/'' \<notin> set cs"
    and nd: "c # cs \<noteq> ''.''" and ndd: "c # cs \<noteq> ''..''"
    by (auto simp: path_element_def)
  have all: "\<forall>x \<in> set cs. x \<noteq> CHR ''/''" using ns(2) by blast
  have tw: "takeWhile (\<lambda>x. x \<noteq> CHR ''/'') (cs @ tl_rest) = cs"
    and dw: "dropWhile (\<lambda>x. x \<noteq> CHR ''/'') (cs @ tl_rest) = tl_rest"
    using assms(2) all by (cases tl_rest; simp)+
  have d1: "\<not> dot_element (c # cs @ tl_rest)"
  proof (cases cs)
    case Nil
    with nd show ?thesis by (simp add: dot_element_def)
  next
    case (Cons d ds)
    with ns(2) show ?thesis by (auto simp: dot_element_def)
  qed
  have d2: "\<not> dotdot_element (c # cs @ tl_rest)"
  proof (cases cs)
    case Nil
    with assms(2) show ?thesis
      by (cases tl_rest) (auto simp: dotdot_element_def)
  next
    case c1: (Cons d ds)
    show ?thesis
    proof (cases ds)
      case Nil
      with c1 ndd show ?thesis by (auto simp: dotdot_element_def)
    next
      case (Cons e es)
      with c1 ns(2) show ?thesis by (auto simp: dotdot_element_def)
    qed
  qed
  show ?thesis
    using seg ns(1) d1 d2 tw dw by simp
qed

lemma Clean_loop_elements:
  assumes "\<forall>s \<in> set segs. path_element s" and "tl_rest = [] \<or> hd tl_rest = CHR ''/''"
  shows "\<forall>s \<in> set st. path_element s \<Longrightarrow>
         Clean_loop True (rooted_path st) 1 (concat (map ((#) CHR ''/'') segs) @ tl_rest)
           = Clean_loop True (rooted_path (st @ segs)) 1 tl_rest"
  using assms(1)
proof (induction segs arbitrary: st)
  case Nil
  then show ?case by simp
next
  case (Cons seg segs)
  let ?R = "concat (map ((#) CHR ''/'') segs) @ tl_rest"
  have R: "?R = [] \<or> hd ?R = CHR ''/''"
    using assms(2) by (cases segs) simp_all
  from Cons.prems have pe: "path_element seg" by simp
  from element_not_special [OF pe R] obtain c cs where
    e: "seg = c # cs" "c \<noteq> CHR ''/''" "\<not> dot_element (c # cs @ ?R)"
       "\<not> dotdot_element (c # cs @ ?R)"
       "takeWhile (\<lambda>x. x \<noteq> CHR ''/'') (c # cs @ ?R) = seg"
       "dropWhile (\<lambda>x. x \<noteq> CHR ''/'') (cs @ ?R) = ?R"
    by blast
  have g': "\<forall>s \<in> set (st @ [seg]). path_element s" using Cons.prems by simp
  have "Clean_loop True (rooted_path st) 1 (concat (map ((#) CHR ''/'') (seg # segs)) @ tl_rest)
          = Clean_loop True (rooted_path st) 1 (c # cs @ ?R)"
    using e(1) by simp
  also have "\<dots> = Clean_loop True (rooted_path (st @ [seg])) 1 ?R"
    using e(2-6) default_out [OF Cons.prems(1), of seg]
    by (simp add: Let_def)
  also have "\<dots> = Clean_loop True (rooted_path ((st @ [seg]) @ segs)) 1 tl_rest"
    using Cons.IH [OF g'] Cons.prems(2) by simp
  finally show ?case by simp
qed

lemma Clean_rooted:
  assumes "p \<noteq> []" and "hd p = CHR ''/''"
  shows "\<exists>st. (\<forall>s \<in> set st. path_element s) \<and> Clean p = rooted_path st"
proof -
  from Clean_loop_rooted [of "[]" "drop 1 p"] obtain st where
    st: "\<forall>s \<in> set st. path_element s" "Clean_loop True ''/'' 1 (drop 1 p) = rooted_path st"
    by (auto simp: rooted_path_def)
  then have "Clean p = rooted_path st"
    using assms rooted_path_nonempty [of st] by (simp add: Clean_def Let_def)
  with st(1) show ?thesis by blast
qed

lemma Clean_rooted_path:
  assumes "\<forall>s \<in> set st. path_element s" and "tl_rest = [] \<or> tl_rest = ''/''"
  shows "Clean (rooted_path st @ tl_rest) = rooted_path st"
proof -
  have t: "tl_rest = [] \<or> hd tl_rest = CHR ''/''" using assms(2) by auto
  have end_: "Clean_loop True (rooted_path st) 1 tl_rest = rooted_path st"
    using assms(2) by auto
  have "Clean_loop True ''/'' 1 (drop 1 (rooted_path st @ tl_rest)) = rooted_path st"
  proof (cases st)
    case Nil
    then show ?thesis using assms(2) by (auto simp: rooted_path_def)
  next
    case (Cons a list)
    then have "drop 1 (rooted_path st @ tl_rest)
                 = a @ concat (map ((#) CHR ''/'') list) @ tl_rest"
      by (simp add: rooted_path_def)
    moreover have "Clean_loop True ''/'' 1 (a @ concat (map ((#) CHR ''/'') list) @ tl_rest)
            = Clean_loop True ''/'' 1 (concat (map ((#) CHR ''/'') st) @ tl_rest)"
      using Cons by simp
    moreover have "Clean_loop True (rooted_path []) 1 (concat (map ((#) CHR ''/'') st) @ tl_rest)
            = Clean_loop True (rooted_path ([] @ st)) 1 tl_rest"
      by (rule Clean_loop_elements [OF assms(1) t]) simp
    ultimately show ?thesis using end_ by (simp add: rooted_path_def)
  qed
  then show ?thesis
    using rooted_path_nonempty [of st] rooted_path_hd [of st]
    by (simp add: Clean_def Let_def)
qed

text \<open>C8: \<open>cleanPath\<close> is idempotent, and a cleaned path other than the root \<open>/\<close>
  ends in a slash exactly when the input ended in one.\<close>

theorem cleanPath_idempotent:
  "cleanPath (cleanPath p) = cleanPath p
   \<and> (cleanPath p \<noteq> ''/'' \<longrightarrow>
        (last (cleanPath p) = CHR ''/'') = (p \<noteq> [] \<and> last p = CHR ''/''))"
proof (cases "p = []")
  case True
  have "Clean ''/'' = ''/''"
    using Clean_rooted_path [of "[]" "[]"] by (simp add: rooted_path_def)
  then show ?thesis using True by (simp add: cleanPath_def)
next
  case False
  define q where "q = (if hd p \<noteq> CHR ''/'' then ''/'' @ p else p)"
  have q: "q \<noteq> []" "hd q = CHR ''/''" "last q = last p"
    using False by (auto simp: q_def)
  from Clean_rooted [OF q(1,2)] obtain st where
    st: "\<forall>s \<in> set st. path_element s" "Clean q = rooted_path st"
    by blast
  have r: "cleanPath p = (if last p = CHR ''/'' \<and> st \<noteq> [] then rooted_path st @ ''/''
                          else rooted_path st)"
    using False st q(3) rooted_path_eq_root [OF st(1)]
    by (simp add: cleanPath_def q_def [symmetric] Let_def)
  show ?thesis
  proof (cases "last p = CHR ''/'' \<and> st \<noteq> []")
    case True
    with r have cp: "cleanPath p = rooted_path st @ ''/''" by simp
    have c: "Clean (rooted_path st @ ''/'') = rooted_path st"
      by (rule Clean_rooted_path [OF st(1)]) simp
    have h: "hd (rooted_path st @ ''/'') = CHR ''/''"
      using rooted_path_hd [of st] rooted_path_nonempty [of st] by simp
    have ne: "rooted_path st \<noteq> ''/''"
      using rooted_path_eq_root [OF st(1)] True by simp
    have idem: "cleanPath (rooted_path st @ ''/'') = rooted_path st @ ''/''"
      using c h ne by (simp add: cleanPath_def Let_def)
    show ?thesis
      unfolding cp using idem True False by simp
  next
    case nt: False
    with r have cp: "cleanPath p = rooted_path st" by simp
    have c: "Clean (rooted_path st) = rooted_path st"
      using Clean_rooted_path [OF st(1), of "[]"] by simp
    have h: "hd (rooted_path st) = CHR ''/''" by (rule rooted_path_hd)
    have l: "last (rooted_path st) = CHR ''/'' \<longrightarrow> rooted_path st = ''/''"
      using rooted_path_last [OF st(1)] rooted_path_eq_root [OF st(1)] by blast
    have idem: "cleanPath (rooted_path st) = rooted_path st"
      using c h l rooted_path_nonempty [of st] by (auto simp: cleanPath_def Let_def)
    have "rooted_path st \<noteq> ''/'' \<longrightarrow> last (rooted_path st) \<noteq> CHR ''/'' \<and> st \<noteq> []"
      using l rooted_path_eq_root [OF st(1)] by blast
    then show ?thesis
      unfolding cp using idem nt False by auto
  qed
qed

theorem cleanPath_idempotent_witness:
  "cleanPath ''a//b/../c/'' = ''/a/c/''
   \<and> cleanPath (cleanPath ''a//b/../c/'') = ''/a/c/''
   \<and> cleanPath ''a//b/../c/'' \<noteq> ''/''
   \<and> last (cleanPath ''a//b/../c/'') = CHR ''/''
   \<and> last ''a//b/../c/'' = CHR ''/''"
proof -
  have e: "cleanPath ''a//b/../c/'' = ''/a/c/''"
    by code_simp
  show ?thesis
    using cleanPath_idempotent [of "''a//b/../c/''"] unfolding e by simp
qed

end
